theory Spec2Isabelle
  imports Main "HOL-Library.Sublist"
begin

section \<open>Python values used by \<open>openforbc_benchmark/cli/benchmark.py\<close>\<close>

text \<open>
  A Python \<open>bytes\<close> object is a list of 8-bit characters.  A Python \<open>str\<close> is
  represented by its UTF-8 encoding, so \<open>bytes.decode()\<close> (UTF-8, strict) is the
  identity on well-formed input and raises \<open>UnicodeDecodeError\<close> otherwise, and
  concatenation of \<open>str\<close> values is concatenation of their encodings.  What a text
  file holds are bytes: the text written to it, encoded in the encoding of the locale.
\<close>

type_synonym bytes = "char list"

abbreviation newline :: char where
  "newline \<equiv> CHR 0x0A"

abbreviation dquote :: char where
  "dquote \<equiv> CHR 0x22"

abbreviation squote :: char where
  "squote \<equiv> CHR 0x27"

abbreviation carriage_return :: char where
  "carriage_return \<equiv> CHR 0x0D"

text \<open>
  The exceptions that can travel through the module.  \<open>OSError\<close> carries a
  description, the file-system errors carry the offending path, the two Unicode errors
  carry the object that could not be converted.  \<open>Exit\<close> is typer's, which derives
  from \<open>RuntimeError\<close>; \<open>OtherError\<close> stands for any other subclass of
  \<open>Exception\<close>.  The last four are not subclasses of \<open>Exception\<close>:
  \<open>KeyboardInterrupt\<close> (raised in the program when the user presses Ctrl-C),
  \<open>SystemExit\<close>, \<open>GeneratorExit\<close>, and \<open>OtherBaseException\<close> for whatever
  else derives from \<open>BaseException\<close> directly.
\<close>

datatype exn =
    OSError string
  | FileNotFoundError string
  | FileExistsError string
  | NotADirectoryError string
  | IsADirectoryError string
  | UnicodeDecodeError bytes
  | UnicodeEncodeError string
  | Exit int
  | BenchmarkTaskError string
  | BenchmarkTaskFailed string
  | OtherError string
  | KeyboardInterrupt
  | SystemExit int
  | GeneratorExit
  | OtherBaseException string

text \<open>\<open>isinstance(e, Exception)\<close>: what a clause \<open>except Exception\<close> catches.\<close>

fun is_Exception :: "exn \<Rightarrow> bool" where
  "is_Exception KeyboardInterrupt = False"
| "is_Exception (SystemExit _) = False"
| "is_Exception GeneratorExit = False"
| "is_Exception (OtherBaseException _) = False"
| "is_Exception _ = True"

subsection \<open>Decimal formatting\<close>

definition digit_char :: "nat \<Rightarrow> char" where
  "digit_char n = ''0123456789'' ! n"

fun digits :: "nat \<Rightarrow> string" where
  "digits n = (if n < 10 then [digit_char n] else digits (n div 10) @ [digit_char (n mod 10)])"

declare digits.simps [simp del]

text \<open>\<open>str(ret)\<close> for a Python int.\<close>

definition str_int :: "int \<Rightarrow> string" where
  "str_int i = (if i < 0 then CHR ''-'' # digits (nat (- i)) else digits (nat i))"

text \<open>Zero padding to a minimum width, as \<open>%02d\<close> and \<open>%04d\<close> do.\<close>

definition zfill :: "nat \<Rightarrow> string \<Rightarrow> string" where
  "zfill k s = replicate (k - length s) (CHR ''0'') @ s"

subsection \<open>\<open>datetime.now().strftime("%Y%m%d_%H%M%S")\<close>\<close>

record datetime =
  year :: nat
  month :: nat
  day :: nat
  hour :: nat
  minute :: nat
  second :: nat
  microsecond :: nat

text \<open>
  The field ranges of Python's \<open>datetime\<close>, with the year restricted to four digits:
  below 1000 the output of \<open>%Y\<close> depends on the platform's C library.
\<close>

definition valid_datetime :: "datetime \<Rightarrow> bool" where
  "valid_datetime dt =
     (1000 \<le> year dt \<and> year dt \<le> 9999 \<and> 1 \<le> month dt \<and> month dt \<le> 12 \<and>
      1 \<le> day dt \<and> day dt \<le> 31 \<and> hour dt < 24 \<and> minute dt < 60 \<and> second dt < 60 \<and>
      microsecond dt < 1000000)"

definition strftime :: "datetime \<Rightarrow> string" where
  "strftime dt =
     zfill 4 (digits (year dt)) @ zfill 2 (digits (month dt)) @ zfill 2 (digits (day dt)) @
     ''_'' @
     zfill 2 (digits (hour dt)) @ zfill 2 (digits (minute dt)) @ zfill 2 (digits (second dt))"

text \<open>A timestamp at second resolution: everything but the microseconds.\<close>

definition to_seconds :: "datetime \<Rightarrow> nat \<times> nat \<times> nat \<times> nat \<times> nat \<times> nat" where
  "to_seconds dt = (year dt, month dt, day dt, hour dt, minute dt, second dt)"

subsection \<open>\<open>os.path\<close> (posixpath)\<close>

text \<open>
  One round of the loop of \<open>posixpath.join\<close>: an absolute component replaces the
  path built so far; otherwise it is appended, with a separator unless the path is empty
  or already ends in one.
\<close>

definition join_step :: "string \<Rightarrow> string \<Rightarrow> string" where
  "join_step path b =
     (if b \<noteq> [] \<and> hd b = CHR ''/'' then b
      else if path = [] \<or> last path = CHR ''/'' then path @ b
      else path @ ''/'' @ b)"

definition path_join :: "string \<Rightarrow> string list \<Rightarrow> string" where
  "path_join a p = foldl join_step a p"

text \<open>
  \<open>posixpath.dirname\<close>: the part up to and including the last separator, with
  trailing separators removed unless it consists of separators only.
\<close>

definition rstrip_sep :: "string \<Rightarrow> string" where
  "rstrip_sep s = rev (dropWhile (\<lambda>c. c = CHR ''/'') (rev s))"

definition dirname :: "string \<Rightarrow> string" where
  "dirname p =
     (let head = rev (dropWhile (\<lambda>c. c \<noteq> CHR ''/'') (rev p))
      in if head \<noteq> [] \<and> \<not> list_all (\<lambda>c. c = CHR ''/'') head then rstrip_sep head else head)"

subsection \<open>\<open>shlex.join\<close>\<close>

text \<open>
  \<open>shlex.quote\<close> leaves a non-empty word of safe characters (ASCII letters, digits
  and \<open>_@%+=:,./-\<close>) alone and otherwise wraps it in single quotes, replacing each
  single quote by \<open>'"'"'\<close>.
\<close>

definition safe_char :: "char \<Rightarrow> bool" where
  "safe_char c =
     (let n = (of_char c :: nat)
      in (48 \<le> n \<and> n \<le> 57) \<or> (65 \<le> n \<and> n \<le> 90) \<or> (97 \<le> n \<and> n \<le> 122) \<or>
         c \<in> set ''_@%+=:,./-'')"

definition quote :: "string \<Rightarrow> string" where
  "quote s =
     (if s = [] then [squote, squote]
      else if list_all safe_char s then s
      else [squote] @
           concat (map (\<lambda>c. if c = squote then [squote, dquote, squote, dquote, squote] else [c]) s) @
           [squote])"

fun str_join :: "string \<Rightarrow> string list \<Rightarrow> string" where
  "str_join sep [] = []"
| "str_join sep [x] = x"
| "str_join sep (x # y # ys) = x @ sep @ str_join sep (y # ys)"

definition shlex_join :: "string list \<Rightarrow> string" where
  "shlex_join split_command = str_join '' '' (map quote split_command)"

subsection \<open>\<open>bytes.decode()\<close>\<close>

definition byte_in :: "nat \<Rightarrow> nat \<Rightarrow> char \<Rightarrow> bool" where
  "byte_in lo hi c = (lo \<le> (of_char c :: nat) \<and> (of_char c :: nat) \<le> hi)"

text \<open>
  Well-formed UTF-8 byte sequences (the Unicode standard's table; no overlong forms, no
  surrogates, nothing above U+10FFFF): the lead byte announces the length, the second
  byte has a range that depends on the lead byte, the others are \<open>80..BF\<close>.
\<close>

definition lead_len :: "char \<Rightarrow> nat" where
  "lead_len c =
     (let b = (of_char c :: nat)
      in if b < 0x80 then 1
         else if 0xC2 \<le> b \<and> b \<le> 0xDF then 2
         else if 0xE0 \<le> b \<and> b \<le> 0xEF then 3
         else if 0xF0 \<le> b \<and> b \<le> 0xF4 then 4
         else 0)"

definition second_lo :: "char \<Rightarrow> nat" where
  "second_lo c =
     (if (of_char c :: nat) = 0xE0 then 0xA0 else if (of_char c :: nat) = 0xF0 then 0x90 else 0x80)"

definition second_hi :: "char \<Rightarrow> nat" where
  "second_hi c =
     (if (of_char c :: nat) = 0xED then 0x9F else if (of_char c :: nat) = 0xF4 then 0x8F else 0xBF)"

definition tail_ok :: "char \<Rightarrow> bytes \<Rightarrow> bool" where
  "tail_ok c rest =
     (case rest of
        [] \<Rightarrow> True
      | c1 # others \<Rightarrow> byte_in (second_lo c) (second_hi c) c1 \<and> list_all (byte_in 0x80 0xBF) others)"

text \<open>The length of the well-formed sequence at the head of a byte string, or \<open>None\<close>.\<close>

definition utf8_seq_len :: "bytes \<Rightarrow> nat option" where
  "utf8_seq_len bs =
     (case bs of
        [] \<Rightarrow> None
      | c # cs \<Rightarrow>
          (let k = lead_len c
           in if 0 < k \<and> k - 1 \<le> length cs \<and> tail_ok c (take (k - 1) cs) then Some k else None))"

fun utf8_valid :: "bytes \<Rightarrow> bool" where
  "utf8_valid [] = True"
| "utf8_valid (c # cs) =
     (case utf8_seq_len (c # cs) of
        None \<Rightarrow> False
      | Some k \<Rightarrow> utf8_valid (drop (k - 1) cs))"

definition decode :: "bytes \<Rightarrow> exn + string" where
  "decode b = (if utf8_valid b then Inr b else Inl (UnicodeDecodeError b))"

subsection \<open>Reading the child's output line by line\<close>

text \<open>
  \<open>readline\<close> on the pipe: the bytes up to and including the next newline, or
  everything that is left when there is none; the second component is what remains.
\<close>

definition readline :: "bytes \<Rightarrow> bytes \<times> bytes" where
  "readline bs =
     (case dropWhile (\<lambda>c. c \<noteq> newline) bs of
        [] \<Rightarrow> (bs, [])
      | _ # rest \<Rightarrow> (takeWhile (\<lambda>c. c \<noteq> newline) bs @ [newline], rest))"

text \<open>\<open>iter(proc.stdout.readline, b"")\<close>: lines until the empty read at end of stream.\<close>

function iter_lines :: "bytes \<Rightarrow> bytes list" where
  "iter_lines bs =
     (case readline bs of (line, rest) \<Rightarrow> if line = [] then [] else line # iter_lines rest)"
  by pat_completeness auto
termination
  apply (relation "measure length")
   apply simp
  apply (clarsimp simp: readline_def split: list.splits)
  subgoal for bs x xs
    using length_dropWhile_le [of "\<lambda>c. c \<noteq> newline" bs] by simp
  done

declare iter_lines.simps [simp del]

text \<open>\<open>line[:-1] if line.endswith(b"\n") else line\<close>\<close>

definition strip_newline :: "bytes \<Rightarrow> bytes" where
  "strip_newline line = (if line \<noteq> [] \<and> last line = newline then butlast line else line)"

subsection \<open>Reading a file opened in text mode\<close>

text \<open>
  \<open>open(path, "r")\<close> leaves \<open>newline\<close> at its default, so what is read has
  universal newlines: every carriage return, together with the line feed that follows it
  if there is one, comes out as one line feed.
\<close>

fun universal_newlines :: "string \<Rightarrow> string" where
  "universal_newlines [] = []"
| "universal_newlines [c] = [if c = carriage_return then newline else c]"
| "universal_newlines (c # d # ds) =
     (if c = carriage_return then
        newline # (if d = newline then universal_newlines ds else universal_newlines (d # ds))
      else c # universal_newlines (d # ds))"

subsection \<open>Two encodings a locale can have\<close>

text \<open>
  The codecs \<open>utf-8\<close> and \<open>ascii\<close> with the error handler \<open>strict\<close>, on
  \<open>str\<close> values represented by their UTF-8 encoding: UTF-8 leaves the representation
  as it is, and ASCII does so for text made of characters below 128 and has nothing else.
\<close>

definition utf8_encode :: "string \<Rightarrow> bytes option" where
  "utf8_encode s = (if utf8_valid s then Some s else None)"

definition utf8_decode :: "bytes \<Rightarrow> string option" where
  "utf8_decode b = (if utf8_valid b then Some b else None)"

definition ascii_encode :: "string \<Rightarrow> bytes option" where
  "ascii_encode s = (if list_all (byte_in 0 0x7F) s then Some s else None)"

definition ascii_decode :: "bytes \<Rightarrow> string option" where
  "ascii_decode b = (if list_all (byte_in 0 0x7F) b then Some b else None)"


section \<open>The environment: file system, console, child processes\<close>

text \<open>
  What the program does to the outside is recorded in a trace, in the order it happens:
  the calls on the spinner (\<open>write\<close> with a \<open>str\<close> or with \<open>bytes\<close>, assignments to
  \<open>text\<close>), \<open>echo\<close> to standard output and to standard error, every call of
  \<open>Popen\<close>, every exit code collected after \<open>poll()\<close> stopped returning \<open>None\<close>,
  and every call of the benchmark's \<open>get_stats\<close> (tagged with the preset it is made
  for).  The spinner and \<open>echo\<close> belong to libraries; their calls are taken to return.
  The task type \<open>'t\<close> stands for \<open>Runnable\<close>, which lives outside this module.
\<close>

datatype 't event =
    SpinnerWrite string
  | SpinnerWriteBytes bytes
  | SpinnerText string
  | Echo string
  | EchoErr string
  | Popen 't
  | Returncode 't int
  | GetStats string

text \<open>
  The file system is a set of directories and a map from file paths to their bytes; paths
  are compared as strings (no normalisation, no symbolic links, no permissions).
  \<open>launches\<close> counts the calls of \<open>Popen\<close> so far.
\<close>

record 't world =
  dirs :: "string set"
  files :: "string \<rightharpoonup> bytes"
  trace :: "'t event list"
  launches :: nat

text \<open>
  What the program reads from the outside: the working directory, the clock,
  \<open>task.args\<close>, \<open>str(task)\<close>, \<open>str(e)\<close> of an exception, the encoding of the
  locale, and the course of the \<open>n\<close>-th call of \<open>Popen\<close>.

  The module opens its log files with \<open>open(path, "a")\<close> and \<open>open(path, "r")\<close>,
  without an \<open>encoding\<close>, so text is written and read in the locale's encoding, with
  the error handler \<open>strict\<close>: \<open>locale_encode\<close> gives the bytes of a text, or nothing
  when the text has a character the encoding lacks; \<open>locale_decode\<close> gives the text of
  the bytes, or nothing when they are not valid in the encoding.  The encoding is taken to
  be stateless: the bytes of a text do not depend on what was written before it.

  A call of \<open>Popen\<close> either raises, or starts a child.  Of a child, the model has
  the merged stdout/stderr stream as far as the program gets to read it, and how the wait
  for the child ends: with the child's exit code, or with an exception raised in the
  program while it reads the stream or sleeps between two polls (\<open>KeyboardInterrupt\<close>
  when the user presses Ctrl-C).  These are the points at which the model has
  asynchronous exceptions; elsewhere the program is taken to run undisturbed.
\<close>

record 't env =
  getcwd :: string
  now :: datetime
  task_args :: "'t \<Rightarrow> string list"
  task_str :: "'t \<Rightarrow> string"
  exc_str :: "exn \<Rightarrow> string"
  locale_encode :: "string \<Rightarrow> bytes option"
  locale_decode :: "bytes \<Rightarrow> string option"
  popen :: "nat \<Rightarrow> 't \<Rightarrow> exn + bytes \<times> (exn + int)"

text \<open>
  \<open>BenchmarkRun\<close> as this module uses it: \<open>benchmark.get_id()\<close>, \<open>setup()\<close>,
  \<open>run()\<close> (pairs of a preset's name and its tasks) and \<open>get_stats\<close>.  The latter is
  handed the log file, opened in text mode; its result is taken to depend on what reading
  that stream to its end gives: the text, or the exception of the read.
\<close>

record ('t, 's) BenchmarkRun =
  benchmark_id :: string
  setup_tasks :: "'t list"
  run_phases :: "(string \<times> 't list) list"
  get_stats :: "exn + string \<Rightarrow> exn + 's"

record ('t, 's) CliBenchmarkRun =
  benchmark_run :: "('t, 's) BenchmarkRun"
  log_dir :: string

definition emit :: "'t event \<Rightarrow> 't world \<Rightarrow> 't world" where
  "emit e w = w\<lparr>trace := trace w @ [e]\<rparr>"

definition is_dir :: "'t world \<Rightarrow> string \<Rightarrow> bool" where
  "is_dir w p = (p \<in> dirs w)"

definition is_file :: "'t world \<Rightarrow> string \<Rightarrow> bool" where
  "is_file w p = (files w p \<noteq> None)"

text \<open>\<open>os.path.exists\<close>\<close>

definition path_exists :: "'t world \<Rightarrow> string \<Rightarrow> bool" where
  "path_exists w p = (is_dir w p \<or> is_file w p)"

text \<open>\<open>os.mkdir\<close>: the path must be new and its parent an existing directory.\<close>

definition mkdir :: "string \<Rightarrow> 't world \<Rightarrow> (exn + unit) \<times> 't world" where
  "mkdir p w =
     (if path_exists w p then (Inl (FileExistsError p), w)
      else if is_file w (dirname p) then (Inl (NotADirectoryError p), w)
      else if \<not> is_dir w (dirname p) then (Inl (FileNotFoundError p), w)
      else (Inr (), w\<lparr>dirs := insert p (dirs w)\<rparr>))"

text \<open>The bytes of a file; a missing file has none.\<close>

definition content :: "'t world \<Rightarrow> string \<Rightarrow> bytes" where
  "content w p = (case files w p of None \<Rightarrow> [] | Some c \<Rightarrow> c)"

text \<open>\<open>open(p, "a")\<close>: creates the file when it is missing.\<close>

definition open_append :: "string \<Rightarrow> 't world \<Rightarrow> (exn + unit) \<times> 't world" where
  "open_append p w =
     (if is_dir w p then (Inl (IsADirectoryError p), w)
      else if is_file w (dirname p) then (Inl (NotADirectoryError p), w)
      else if \<not> is_dir w (dirname p) then (Inl (FileNotFoundError p), w)
      else (Inr (), w\<lparr>files := (files w)(p \<mapsto> content w p)\<rparr>))"

text \<open>Bytes are added at the end of a file.\<close>

definition append_bytes :: "string \<Rightarrow> bytes \<Rightarrow> 't world \<Rightarrow> 't world" where
  "append_bytes p b w = w\<lparr>files := (files w)(p \<mapsto> content w p @ b)\<rparr>"

text \<open>
  \<open>log_file.write(s)\<close> on a file opened for appending in text mode: the text is
  encoded in the locale's encoding and the bytes are appended, or \<open>UnicodeEncodeError\<close>
  is raised and nothing of \<open>s\<close> is written.  (On POSIX a line feed is written as it is.)
\<close>

definition file_write :: "'t env \<Rightarrow> string \<Rightarrow> string \<Rightarrow> 't world \<Rightarrow> (exn + unit) \<times> 't world" where
  "file_write env p s w =
     (case locale_encode env s of
        None \<Rightarrow> (Inl (UnicodeEncodeError s), w)
      | Some b \<Rightarrow> (Inr (), append_bytes p b w))"

text \<open>\<open>open(p, "r")\<close>: the stream over the bytes of the file.\<close>

definition open_read :: "string \<Rightarrow> 't world \<Rightarrow> exn + bytes" where
  "open_read p w =
     (case files w p of
        Some c \<Rightarrow> Inr c
      | None \<Rightarrow> if is_dir w p then Inl (IsADirectoryError p) else Inl (FileNotFoundError p))"

text \<open>
  Reading such a stream to its end: the bytes are decoded in the locale's encoding,
  which raises \<open>UnicodeDecodeError\<close> when they are not valid in it, and the newlines of
  the text are translated.
\<close>

definition read_text :: "'t env \<Rightarrow> bytes \<Rightarrow> exn + string" where
  "read_text env b =
     (case locale_decode env b of
        None \<Rightarrow> Inl (UnicodeDecodeError b)
      | Some s \<Rightarrow> Inr (universal_newlines s))"

section \<open>The module\<close>

subsection \<open>\<open>get_benchmark_log_dir\<close> and \<open>CliBenchmarkRun.__init__\<close>\<close>

definition get_benchmark_log_dir ::
  "'t env \<Rightarrow> string \<Rightarrow> 't world \<Rightarrow> (exn + string) \<times> 't world" where
  "get_benchmark_log_dir env bid w =
     (let log_dir = path_join (getcwd env) [''logs'']
      in if \<not> path_exists w log_dir then
           (Inl (Exit 1),
            emit (EchoErr (''ERROR: Log directory '' @ [dquote] @ ''logs'' @ [dquote] @
                           '' not found in current directory'')) w)
         else (Inr (path_join (getcwd env) [''logs'', bid]), w))"

definition CliBenchmarkRun_init ::
  "'t env \<Rightarrow> ('t, 's) BenchmarkRun \<Rightarrow> 't world \<Rightarrow> (exn + ('t, 's) CliBenchmarkRun) \<times> 't world" where
  "CliBenchmarkRun_init env br w =
     (case get_benchmark_log_dir env (benchmark_id br) w of
        (Inl e, w1) \<Rightarrow> (Inl e, w1)
      | (Inr base, w1) \<Rightarrow>
          (let ld = path_join base [strftime (now env)];
               parent = dirname ld
           in case (if \<not> path_exists w1 parent then mkdir parent w1 else (Inr (), w1)) of
                (Inl e, w2) \<Rightarrow> (Inl e, w2)
              | (Inr _, w2) \<Rightarrow>
                  (case mkdir ld w2 of
                     (Inl e, w3) \<Rightarrow> (Inl e, w3)
                   | (Inr _, w3) \<Rightarrow> (Inr \<lparr>benchmark_run = br, log_dir = ld\<rparr>, w3))))"

subsection \<open>\<open>_get_log_path\<close> and \<open>_print\<close>\<close>

definition get_log_path :: "('t, 's) CliBenchmarkRun \<Rightarrow> string \<Rightarrow> string" where
  "get_log_path self identifier = path_join (log_dir self) [identifier @ ''.log'']"

definition print_message :: "string \<Rightarrow> bool \<Rightarrow> 't world \<Rightarrow> 't world" where
  "print_message message err w = emit (if err then EchoErr message else Echo message) w"

subsection \<open>\<open>_run_task\<close>\<close>

text \<open>
  The loop over the child's lines: each is handed to the spinner without its newline,
  then decoded (UTF-8) and written to the log.  A line that does not decode, or whose text
  the locale's encoding cannot encode, ends the loop with the exception; what was written
  before stays in the file.
\<close>

fun copy_lines :: "'t env \<Rightarrow> string \<Rightarrow> bytes list \<Rightarrow> 't world \<Rightarrow> (exn + unit) \<times> 't world" where
  "copy_lines env log_path [] w = (Inr (), w)"
| "copy_lines env log_path (line # rest) w =
     (let w1 = emit (SpinnerWriteBytes (strip_newline line)) w
      in case decode line of
           Inl e \<Rightarrow> (Inl e, w1)
         | Inr s \<Rightarrow>
             (case file_write env log_path s w1 of
                (Inl e, w2) \<Rightarrow> (Inl e, w2)
              | (Inr _, w2) \<Rightarrow> copy_lines env log_path rest w2))"

text \<open>
  The command line goes to the spinner, the child is started, the log is opened for
  appending and gets the command line, the lines are copied, and the exit code is
  collected once \<open>poll()\<close> has one.  An exception at any of these points ends the
  function with the log as it is.
\<close>

definition run_task :: "'t env \<Rightarrow> 't \<Rightarrow> string \<Rightarrow> 't world \<Rightarrow> (exn + int) \<times> 't world" where
  "run_task env task log_path w =
     (let cmd = shlex_join (task_args env task);
          w1 = emit (SpinnerWrite (''$ '' @ cmd)) w;
          w2 = emit (Popen task) (w1\<lparr>launches := Suc (launches w1)\<rparr>)
      in case popen env (launches w) task of
           Inl e \<Rightarrow> (Inl e, w2)
         | Inr (out, ending) \<Rightarrow>
             (case open_append log_path w2 of
                (Inl e, w3) \<Rightarrow> (Inl e, w3)
              | (Inr _, w3) \<Rightarrow>
                  (case file_write env log_path (''$ '' @ cmd @ [newline]) w3 of
                     (Inl e, w4) \<Rightarrow> (Inl e, w4)
                   | (Inr _, w4) \<Rightarrow>
                       (case copy_lines env log_path (iter_lines out) w4 of
                          (Inl e, w5) \<Rightarrow> (Inl e, w5)
                        | (Inr _, w5) \<Rightarrow>
                            (case ending of
                               Inl e \<Rightarrow> (Inl e, w5)
                             | Inr returncode \<Rightarrow>
                                 (Inr returncode, emit (Returncode task returncode) w5))))))"

subsection \<open>\<open>_run_task_or_err\<close>\<close>

text \<open>
  The handler is \<open>except Exception\<close>: an exception of \<open>_run_task\<close> that is not an
  \<open>Exception\<close> passes through as it is, with no message printed.
\<close>

definition run_task_or_err ::
  "'t env \<Rightarrow> 't \<Rightarrow> string \<Rightarrow> string \<Rightarrow> 't world \<Rightarrow> (exn + unit) \<times> 't world" where
  "run_task_or_err env task log_path err_message w =
     (case run_task env task log_path w of
        (Inl e, w1) \<Rightarrow>
          if is_Exception e then
            (Inl (BenchmarkTaskError
                    (''Task '' @ task_str env task @ '' did not start because of '' @ exc_str env e)),
             print_message err_message True w1)
          else (Inl e, w1)
      | (Inr ret, w1) \<Rightarrow>
          if ret \<noteq> 0 then
            (Inl (BenchmarkTaskFailed
                    (''Task '' @ task_str env task @ '' failed with return code '' @ str_int ret)),
             print_message err_message True w1)
          else (Inr (), w1))"

subsection \<open>\<open>start\<close>\<close>

text \<open>
  The two task loops of \<open>start\<close> differ in the log identifier, the status text and the
  error message only; the phase carries that difference.
\<close>

datatype phase = Setup | Run string

fun phase_id :: "phase \<Rightarrow> string" where
  "phase_id Setup = ''setup''"
| "phase_id (Run name) = ''run_'' @ name"

fun status_text :: "string \<Rightarrow> phase \<Rightarrow> string \<Rightarrow> string" where
  "status_text bid Setup cmd = bid @ ''(setup): '' @ cmd"
| "status_text bid (Run name) cmd = bid @ ''(run:'' @ name @ ''): '' @ cmd"

fun err_message :: "string \<Rightarrow> phase \<Rightarrow> string \<Rightarrow> string" where
  "err_message bid Setup cmd =
     ''Benchmark '' @ [dquote] @ bid @ [dquote] @ '' setup command '' @ [dquote] @ cmd @ [dquote] @
     '' failed''"
| "err_message bid (Run name) cmd =
     ''Benchmark '' @ [dquote] @ bid @ [dquote] @ '' preset '' @ [dquote] @ name @ [dquote] @
     '' command '' @ [dquote] @ cmd @ [dquote] @ '' failed''"

text \<open>The lines written on the spinner when the setup and when a preset begin.\<close>

definition setup_banner :: "string \<Rightarrow> string" where
  "setup_banner bid = ''Running '' @ [dquote] @ bid @ [dquote] @ '' setup commands''"

definition preset_banner :: "string \<Rightarrow> string \<Rightarrow> string" where
  "preset_banner bid name =
     ''Running '' @ [dquote] @ bid @ [dquote] @ '' preset '' @ [dquote] @ name @ [dquote]"

text \<open>The body of a task loop: set the status text, run the task or raise.\<close>

definition run_phase_task ::
  "'t env \<Rightarrow> ('t, 's) CliBenchmarkRun \<Rightarrow> phase \<Rightarrow> 't \<Rightarrow> 't world \<Rightarrow> (exn + unit) \<times> 't world" where
  "run_phase_task env self ph task w =
     (let bid = benchmark_id (benchmark_run self);
          cmd = shlex_join (task_args env task);
          w1 = emit (SpinnerText (status_text bid ph cmd)) w
      in run_task_or_err env task (get_log_path self (phase_id ph)) (err_message bid ph cmd) w1)"

fun run_tasks ::
  "'t env \<Rightarrow> ('t, 's) CliBenchmarkRun \<Rightarrow> phase \<Rightarrow> 't list \<Rightarrow> 't world \<Rightarrow> (exn + unit) \<times> 't world" where
  "run_tasks env self ph [] w = (Inr (), w)"
| "run_tasks env self ph (task # tasks) w =
     (case run_phase_task env self ph task w of
        (Inl e, w2) \<Rightarrow> (Inl e, w2)
      | (Inr _, w2) \<Rightarrow> run_tasks env self ph tasks w2)"

text \<open>
  The body of the loop over the presets: announce the preset, run its tasks, then open
  its log for reading, call \<open>get_stats\<close> with the open file and store the result
  under the preset's name.
\<close>

definition run_preset ::
  "'t env \<Rightarrow> ('t, 's) CliBenchmarkRun \<Rightarrow> string \<Rightarrow> 't list \<Rightarrow> (string \<rightharpoonup> 's) \<Rightarrow> 't world \<Rightarrow>
   (exn + (string \<rightharpoonup> 's)) \<times> 't world" where
  "run_preset env self name tasks stats w =
     (let bid = benchmark_id (benchmark_run self);
          w1 = emit (SpinnerWrite (preset_banner bid name)) w
      in case run_tasks env self (Run name) tasks w1 of
           (Inl e, w2) \<Rightarrow> (Inl e, w2)
         | (Inr _, w2) \<Rightarrow>
             (case open_read (get_log_path self (phase_id (Run name))) w2 of
                Inl e \<Rightarrow> (Inl e, w2)
              | Inr output \<Rightarrow>
                  (let w3 = emit (GetStats name) w2
                   in case get_stats (benchmark_run self) (read_text env output) of
                        Inl e \<Rightarrow> (Inl e, w3)
                      | Inr s \<Rightarrow> (Inr (stats(name \<mapsto> s)), w3))))"

fun run_presets ::
  "'t env \<Rightarrow> ('t, 's) CliBenchmarkRun \<Rightarrow> (string \<times> 't list) list \<Rightarrow> (string \<rightharpoonup> 's) \<Rightarrow> 't world \<Rightarrow>
   (exn + (string \<rightharpoonup> 's)) \<times> 't world" where
  "run_presets env self [] stats w = (Inr stats, w)"
| "run_presets env self ((name, tasks) # rest) stats w =
     (case run_preset env self name tasks stats w of
        (Inl e, w1) \<Rightarrow> (Inl e, w1)
      | (Inr stats1, w1) \<Rightarrow> run_presets env self rest stats1 w1)"

definition start ::
  "'t env \<Rightarrow> ('t, 's) CliBenchmarkRun \<Rightarrow> 't world \<Rightarrow> (exn + (string \<rightharpoonup> 's)) \<times> 't world" where
  "start env self w =
     (let bid = benchmark_id (benchmark_run self);
          w1 = emit (SpinnerWrite (setup_banner bid)) w
      in case run_tasks env self Setup (setup_tasks (benchmark_run self)) w1 of
           (Inl e, w2) \<Rightarrow> (Inl e, w2)
         | (Inr _, w2) \<Rightarrow> run_presets env self (run_phases (benchmark_run self)) Map.empty w2)"

subsection \<open>\<open>run_benchmark\<close>, from the construction of the run on\<close>



section \<open>Notions used in the statements\<close>

text \<open>
  \<open>open(p, "a")\<close> succeeds: \<open>p\<close> is not a directory and its parent is an existing
  directory.
\<close>

definition can_append :: "'t world \<Rightarrow> string \<Rightarrow> bool" where
  "can_append w p = (\<not> is_dir w p \<and> is_dir w (dirname p) \<and> \<not> is_file w (dirname p))"

text \<open>
  The part of a trace that concerns processes and statistics: launches, collected exit
  codes and calls of \<open>get_stats\<close>.
\<close>

fun is_proc :: "'t event \<Rightarrow> bool" where
  "is_proc (Popen _) = True"
| "is_proc (Returncode _ _) = True"
| "is_proc (GetStats _) = True"
| "is_proc _ = False"

definition proc_events :: "'t event list \<Rightarrow> 't event list" where
  "proc_events tr = filter is_proc tr"


text \<open>
  A text can be encoded in the locale's encoding; bytes can be decoded in it; and the
  bytes of a text that can be encoded (no bytes for one that cannot).
\<close>

definition encodable :: "'t env \<Rightarrow> string \<Rightarrow> bool" where
  "encodable env s = (locale_encode env s \<noteq> None)"


definition encoded :: "'t env \<Rightarrow> string \<Rightarrow> bytes" where
  "encoded env s = (case locale_encode env s of None \<Rightarrow> [] | Some b \<Rightarrow> b)"

text \<open>
  The texts that \<open>_run_task\<close> writes to the log for a task whose child prints
  \<open>out\<close>, when every line decodes: the command line, then the lines.
\<close>

definition written :: "'t env \<Rightarrow> 't \<Rightarrow> bytes \<Rightarrow> string list" where
  "written env task out = (''$ '' @ shlex_join (task_args env task) @ [newline]) # iter_lines out"


text \<open>
  What such a list of tasks adds to its phase's log: for each task the bytes of the
  command line and of the lines its child prints.
\<close>

fun phase_log :: "'t env \<Rightarrow> nat \<Rightarrow> 't list \<Rightarrow> bytes" where
  "phase_log env n [] = []"
| "phase_log env n (t # ts) =
     (case popen env n t of
        Inl _ \<Rightarrow> []
      | Inr (out, _) \<Rightarrow> concat (map (encoded env) (written env t out))) @
     phase_log env (Suc n) ts"



text \<open>
  \<open>start\<close>, begun in \<open>w0\<close>, gets to the point where the tasks \<open>todo\<close> of the
  phase are still to run, in the world \<open>w1\<close>: everything before them has completed (the
  earlier tasks of the setup; or the whole setup, the presets before this one with their
  statistics, and the earlier tasks of this preset).
\<close>

definition reaches ::
  "'t env \<Rightarrow> ('t, 's) CliBenchmarkRun \<Rightarrow> 't world \<Rightarrow> phase \<Rightarrow> 't list \<Rightarrow> 't world \<Rightarrow> bool" where
  "reaches env self w0 ph todo w1 =
     (let br = benchmark_run self;
          ws0 = emit (SpinnerWrite (setup_banner (benchmark_id br))) w0
      in case ph of
           Setup \<Rightarrow>
             (\<exists>pre. setup_tasks br = pre @ todo \<and> run_tasks env self Setup pre ws0 = (Inr (), w1))
         | Run name \<Rightarrow>
             (\<exists>ws before pre rest stats wb.
                run_phases br = before @ (name, pre @ todo) # rest \<and>
                run_tasks env self Setup (setup_tasks br) ws0 = (Inr (), ws) \<and>
                run_presets env self before Map.empty ws = (Inr stats, wb) \<and>
                run_tasks env self (Run name) pre
                  (emit (SpinnerWrite (preset_banner (benchmark_id br) name)) wb) = (Inr (), w1)))"

subsection \<open>A concrete run\<close>

text \<open>
  A small environment on which the statements below are exercised.  Tasks are their
  argument vectors: \<open>echo hi\<close> prints one line and succeeds, \<open>false\<close> exits
  with 1, \<open>bin\<close> prints a byte that is not UTF-8 and succeeds, \<open>accent\<close> prints the
  two bytes of U+00E9 and a line feed and succeeds, \<open>crlf\<close> prints a line that ends in
  carriage return and line feed and succeeds, \<open>sleep\<close> prints nothing and is interrupted
  by Ctrl-C, anything else cannot be started.  The locale is a UTF-8 one.
\<close>

definition demo_env :: "string list env" where
  "demo_env =
     \<lparr>getcwd = ''/w'',
      now = \<lparr>year = 2026, month = 11, day = 4, hour = 7, minute = 21, second = 5, microsecond = 123\<rparr>,
      task_args = (\<lambda>t. t),
      task_str = shlex_join,
      exc_str = (\<lambda>e. case e of OSError m \<Rightarrow> m | _ \<Rightarrow> ''error''),
      locale_encode = utf8_encode,
      locale_decode = utf8_decode,
      popen = (\<lambda>n t. if t = [''echo'', ''hi''] then Inr (''hi'' @ [newline], Inr 0)
                       else if t = [''false''] then Inr ([], Inr 1)
                       else if t = [''bin''] then Inr ([CHR 0xFF], Inr 0)
                       else if t = [''accent''] then Inr ([CHR 0xC3, CHR 0xA9, newline], Inr 0)
                       else if t = [''crlf''] then Inr (''a'' @ [carriage_return, newline], Inr 0)
                       else if t = [''sleep''] then Inr ([], Inl KeyboardInterrupt)
                       else Inl (OSError ''No such file or directory''))\<rparr>"

text \<open>The same environment in a locale whose encoding is ASCII.\<close>

definition demo_ascii :: "string list env" where
  "demo_ascii = demo_env\<lparr>locale_encode := ascii_encode, locale_decode := ascii_decode\<rparr>"

definition demo_world :: "string list world" where
  "demo_world = \<lparr>dirs = {''/'', ''/w'', ''/w/logs''}, files = Map.empty, trace = [], launches = 0\<rparr>"

definition demo_run :: "(string list, nat) BenchmarkRun" where
  "demo_run =
     \<lparr>benchmark_id = ''b'',
      setup_tasks = [[''echo'', ''hi'']],
      run_phases = [(''p'', [[''echo'', ''hi'']])],
      get_stats = (\<lambda>r. case r of Inl e \<Rightarrow> Inl e | Inr c \<Rightarrow> Inr (length c))\<rparr>"

definition demo_cli :: "(string list, nat) CliBenchmarkRun" where
  "demo_cli = \<lparr>benchmark_run = demo_run, log_dir = ''/w/logs/b/20261104_072105''\<rparr>"

definition demo_ready :: "string list world" where
  "demo_ready =
     \<lparr>dirs = {''/'', ''/w'', ''/w/logs'', ''/w/logs/b'', ''/w/logs/b/20261104_072105''},
      files = Map.empty, trace = [], launches = 0\<rparr>"


definition demo_later :: "string list env" where
  "demo_later = demo_env\<lparr>now := \<lparr>year = 2026, month = 11, day = 4, hour = 7, minute = 21, second = 6, microsecond = 0\<rparr>\<rparr>"

text \<open>The concrete run with a setup whose second task fails.\<close>

definition demo_failing :: "(string list, nat) CliBenchmarkRun" where
  "demo_failing =
     \<lparr>benchmark_run = demo_run\<lparr>setup_tasks := [[''echo'', ''hi''], [''false'']]\<rparr>,
      log_dir = ''/w/logs/b/20261104_072105''\<rparr>"





section \<open>Lemmas\<close>

subsection \<open>Lines and decoding\<close>

lemma readline_Nil: "readline [] = ([], [])"
  by (simp add: readline_def)

lemma readline_newline: "readline (newline # cs) = ([newline], cs)"
  by (simp add: readline_def)

lemma readline_other:
  "c \<noteq> newline \<Longrightarrow> readline (c # cs) = (c # fst (readline cs), snd (readline cs))"
proof (cases "dropWhile (\<lambda>c. c \<noteq> newline) cs")
  case Nil
  assume "c \<noteq> newline"
  with Nil show ?thesis by (simp add: readline_def del: dropWhile_eq_Nil_conv)
next
  case (Cons x rest)
  assume "c \<noteq> newline"
  with Cons show ?thesis by (simp add: readline_def)
qed

lemma readline_prefix:
  "newline \<notin> set pre \<Longrightarrow> readline (pre @ r) = (pre @ fst (readline r), snd (readline r))"
  by (induction pre) (simp_all add: readline_other [OF not_sym])

lemma readline_append: "fst (readline bs) @ snd (readline bs) = bs"
proof (cases "dropWhile (\<lambda>c. c \<noteq> newline) bs")
  case Nil
  then show ?thesis by (simp add: readline_def del: dropWhile_eq_Nil_conv)
next
  case (Cons x rest)
  have "takeWhile (\<lambda>c. c \<noteq> newline) bs @ dropWhile (\<lambda>c. c \<noteq> newline) bs = bs"
    by (rule takeWhile_dropWhile_id)
  moreover have "x = newline"
    using hd_dropWhile [of "\<lambda>c. c \<noteq> newline" bs] Cons by simp
  ultimately show ?thesis using Cons by (simp add: readline_def)
qed

lemma readline_empty: "fst (readline bs) = [] \<Longrightarrow> bs = []"
  by (cases "dropWhile (\<lambda>c. c \<noteq> newline) bs") (simp_all add: readline_def)

lemma iter_lines_Nil: "iter_lines [] = []"
  by (simp add: iter_lines.simps [of "[]"] readline_Nil)

lemma iter_lines_step:
  "bs \<noteq> [] \<Longrightarrow> iter_lines bs = fst (readline bs) # iter_lines (snd (readline bs))"
  using readline_empty [of bs]
  by (cases "readline bs") (auto simp: iter_lines.simps [of bs])

lemma concat_iter_lines: "concat (iter_lines bs) = bs"
proof (induction bs rule: iter_lines.induct)
  case (1 bs)
  show ?case
  proof (cases "bs = []")
    case True
    then show ?thesis by (simp add: iter_lines_Nil)
  next
    case False
    then have ne: "fst (readline bs) \<noteq> []" using readline_empty by blast
    have "concat (iter_lines (snd (readline bs))) = snd (readline bs)"
      by (rule "1.IH" [OF prod.collapse ne])
    with False show ?thesis by (simp add: iter_lines_step readline_append)
  qed
qed

lemma tail_ok_no_newline: "tail_ok c ts \<Longrightarrow> newline \<notin> set ts"
  by (cases ts) (auto simp: tail_ok_def byte_in_def second_lo_def list_all_iff split: if_splits)

lemma seq_len_SomeD:
  assumes "utf8_seq_len (c # cs) = Some k"
  shows "k = lead_len c" "0 < k" "k - 1 \<le> length cs" "tail_ok c (take (k - 1) cs)"
  using assms by (auto simp: utf8_seq_len_def Let_def split: if_splits)

lemma seq_len_prefix:
  assumes "0 < lead_len c" "length pre = lead_len c - 1" "tail_ok c pre"
  shows "utf8_seq_len (c # pre @ ys) = Some (lead_len c)"
  using assms by (simp add: utf8_seq_len_def Let_def)

lemma lead_len_newline: "lead_len newline = 1"
  by (simp add: lead_len_def)

lemma utf8_valid_readline:
  "utf8_valid bs \<Longrightarrow> utf8_valid (fst (readline bs)) \<and> utf8_valid (snd (readline bs))"
proof (induction bs rule: utf8_valid.induct)
  case 1
  then show ?case by (simp add: readline_Nil)
next
  case (2 c cs)
  from "2.prems" obtain k where k: "utf8_seq_len (c # cs) = Some k" and v: "utf8_valid (drop (k - 1) cs)"
    by (auto split: option.splits)
  note d = seq_len_SomeD [OF k]
  let ?pre = "take (k - 1) cs" and ?r = "drop (k - 1) cs"
  have cs: "cs = ?pre @ ?r" by simp
  have len: "length ?pre = lead_len c - 1" using d by simp
  have IH: "utf8_valid (fst (readline ?r)) \<and> utf8_valid (snd (readline ?r))"
    using "2.IH" [OF k] v by simp
  show ?case
  proof (cases "c = newline")
    case True
    with d have "k = 1" by (simp add: lead_len_newline)
    with True v show ?thesis by (simp add: readline_newline utf8_seq_len_def lead_len_newline tail_ok_def)
  next
    case False
    have nn: "newline \<notin> set ?pre" using d(4) by (rule tail_ok_no_newline)
    have rl: "readline (c # cs) = (c # ?pre @ fst (readline ?r), snd (readline ?r))"
      using readline_other [OF False, of cs] readline_prefix [OF nn, of ?r] by simp
    have sl: "utf8_seq_len (c # ?pre @ fst (readline ?r)) = Some k"
      using seq_len_prefix [of c ?pre "fst (readline ?r)"] d len by simp
    have "utf8_valid (c # ?pre @ fst (readline ?r)) = utf8_valid (fst (readline ?r))"
      using sl len d by simp
    with IH rl show ?thesis by simp
  qed
qed

lemma utf8_valid_iter_lines: "utf8_valid bs \<Longrightarrow> \<forall>l\<in>set (iter_lines bs). utf8_valid l"
proof (induction bs rule: iter_lines.induct)
  case (1 bs)
  show ?case
  proof (cases "bs = []")
    case True
    then show ?thesis by (simp add: iter_lines_Nil)
  next
    case False
    then have ne: "fst (readline bs) \<noteq> []" using readline_empty by blast
    have v: "utf8_valid (fst (readline bs))" "utf8_valid (snd (readline bs))"
      using utf8_valid_readline [OF "1.prems"] by simp_all
    have "\<forall>l\<in>set (iter_lines (snd (readline bs))). utf8_valid l"
      by (rule "1.IH" [OF prod.collapse ne v(2)])
    with False v show ?thesis by (simp add: iter_lines_step)
  qed
qed

subsection \<open>Timestamps and paths\<close>

lemma digit_char_digit: "n < 10 \<Longrightarrow> digit_char n \<in> set ''0123456789''"
  unfolding digit_char_def by (rule nth_mem) simp

lemma digit_char_not_sep: "n < 10 \<Longrightarrow> digit_char n \<noteq> CHR ''/''"
  using digit_char_digit [of n] by auto

lemma digits_no_sep: "CHR ''/'' \<notin> set (digits n)"
proof (induction n rule: digits.induct)
  case (1 n)
  show ?case
  proof (cases "n < 10")
    case True
    then show ?thesis using digit_char_not_sep [of n] by (simp add: digits.simps [of n])
  next
    case False
    have "n mod 10 < 10" by simp
    then have "digit_char (n mod 10) \<noteq> CHR ''/''" by (rule digit_char_not_sep)
    with False 1 show ?thesis by (simp add: digits.simps [of n])
  qed
qed

lemma zfill_no_sep: "CHR ''/'' \<notin> set s \<Longrightarrow> CHR ''/'' \<notin> set (zfill k s)"
  by (simp add: zfill_def)

lemma strftime_no_sep: "CHR ''/'' \<notin> set (strftime dt)"
  by (simp add: strftime_def zfill_no_sep digits_no_sep)

lemma strftime_nonempty: "strftime dt \<noteq> []"
  by (simp add: strftime_def)

lemma join_step_relative:
  assumes "b \<noteq> []" "hd b \<noteq> CHR ''/''"
  shows "join_step path b = (if path = [] \<or> last path = CHR ''/'' then path @ b else path @ ''/'' @ b)"
  using assms by (simp add: join_step_def)

lemma log_dir_of_init:
  assumes "fst (CliBenchmarkRun_init env br w) = Inr self"
  shows "log_dir self = path_join (path_join (getcwd env) [''logs'', benchmark_id br]) [strftime (now env)]"
  using assms
  by (auto simp: CliBenchmarkRun_init_def get_benchmark_log_dir_def Let_def
           split: prod.splits sum.splits if_splits)

lemma log_dir_shape:
  assumes "fst (CliBenchmarkRun_init env br w) = Inr self"
  shows "log_dir self \<noteq> [] \<and> last (log_dir self) \<noteq> CHR ''/''"
proof -
  let ?ts = "strftime (now env)"
  have ne: "?ts \<noteq> []" by (rule strftime_nonempty)
  have ns: "CHR ''/'' \<notin> set ?ts" by (rule strftime_no_sep)
  from ne ns have hd: "hd ?ts \<noteq> CHR ''/''" by (metis hd_in_set)
  from ne ns have lst: "last ?ts \<noteq> CHR ''/''" by (metis last_in_set)
  show ?thesis using ne hd lst
    by (simp add: log_dir_of_init [OF assms] path_join_def join_step_relative)
qed

lemma get_log_path_phase:
  assumes "log_dir self \<noteq> []" "last (log_dir self) \<noteq> CHR ''/''"
  shows "get_log_path self (phase_id ph) = log_dir self @ ''/'' @ phase_id ph @ ''.log''"
  using assms by (cases ph) (simp_all add: get_log_path_def path_join_def join_step_def)

subsection \<open>The concrete run, evaluated\<close>

lemma demo_strftime: "strftime (now demo_env) = ''20261104_072105''"
  by (simp add: demo_env_def strftime_def zfill_def digits.simps digit_char_def)

lemma demo_paths:
  "path_join ''/w'' [''logs''] = ''/w/logs''"
  "path_join ''/w'' [''logs'', ''b''] = ''/w/logs/b''"
  "path_join ''/w/logs/b'' [''20261104_072105''] = ''/w/logs/b/20261104_072105''"
  "dirname ''/w/logs/b/20261104_072105'' = ''/w/logs/b''"
  "dirname ''/w/logs/b'' = ''/w/logs''"
  by code_simp+

lemma demo_gbld: "get_benchmark_log_dir demo_env ''b'' demo_world = (Inr ''/w/logs/b'', demo_world)"
  by (simp add: get_benchmark_log_dir_def Let_def path_exists_def is_dir_def is_file_def)
     (simp add: demo_env_def demo_world_def demo_paths)


lemma demo_bid: "benchmark_id demo_run = ''b''"
  by (simp add: demo_run_def)

lemma demo_exists: "\<not> path_exists demo_world ''/w/logs/b''"
  by (simp add: path_exists_def is_dir_def is_file_def demo_world_def)

lemma demo_mkdir1:
  "mkdir ''/w/logs/b'' demo_world = (Inr (), demo_world\<lparr>dirs := insert ''/w/logs/b'' (dirs demo_world)\<rparr>)"
  by (simp add: mkdir_def demo_exists demo_paths) (simp add: is_dir_def is_file_def demo_world_def)

lemma demo_mkdir2:
  "mkdir ''/w/logs/b/20261104_072105'' (demo_world\<lparr>dirs := insert ''/w/logs/b'' (dirs demo_world)\<rparr>) =
     (Inr (), demo_ready)"
  by (simp add: mkdir_def demo_paths path_exists_def)
     (auto simp add: is_dir_def is_file_def demo_world_def demo_ready_def)

lemma demo_init:
  "CliBenchmarkRun_init demo_env demo_run demo_world = (Inr demo_cli, demo_ready)"
  by (simp add: CliBenchmarkRun_init_def demo_bid demo_gbld demo_strftime demo_paths demo_exists
        demo_mkdir1 demo_mkdir2 demo_cli_def)




lemma demo_log: "get_log_path demo_cli ''setup'' = ''/w/logs/b/20261104_072105/setup.log''"
  by (simp add: get_log_path_def demo_cli_def path_join_def join_step_def)


lemma digits_lt10: "n < 10 \<Longrightarrow> digits n = [digit_char n]"
  by (simp add: digits.simps [of n])

lemma digits_ge10: "10 \<le> n \<Longrightarrow> digits n = digits (n div 10) @ [digit_char (n mod 10)]"
  by (simp add: digits.simps [of n])

lemma digit_char_0: "digit_char 0 = CHR ''0''"
  by (simp add: digit_char_def)

lemma two_digits:
  assumes "n < 100"
  shows "zfill 2 (digits n) = [digit_char (n div 10), digit_char (n mod 10)]"
proof (cases "n < 10")
  case True
  then show ?thesis by (simp add: digits_lt10 zfill_def digit_char_0)
next
  case False
  with assms have "n div 10 < 10" by simp
  with False show ?thesis by (simp add: digits_ge10 digits_lt10 zfill_def)
qed

lemma four_digits:
  assumes "1000 \<le> n" "n \<le> 9999"
  shows "zfill 4 (digits n) =
           [digit_char (n div 1000), digit_char (n div 100 mod 10), digit_char (n div 10 mod 10),
            digit_char (n mod 10)]"
proof -
  have a: "10 \<le> n" "10 \<le> n div 10" "10 \<le> n div 100" "n div 1000 < 10"
    using assms by simp_all
  have "digits n = digits (n div 10) @ [digit_char (n mod 10)]"
    using a(1) by (rule digits_ge10)
  also have "digits (n div 10) = digits (n div 100) @ [digit_char (n div 10 mod 10)]"
    using digits_ge10 [OF a(2)] by (simp add: div_mult2_eq [symmetric])
  also have "digits (n div 100) = digits (n div 1000) @ [digit_char (n div 100 mod 10)]"
    using digits_ge10 [OF a(3)] by (simp add: div_mult2_eq [symmetric])
  also have "digits (n div 1000) = [digit_char (n div 1000)]"
    using a(4) by (rule digits_lt10)
  finally show ?thesis by (simp add: zfill_def)
qed

lemma digit_char_inj: "a < 10 \<Longrightarrow> b < 10 \<Longrightarrow> digit_char a = digit_char b \<Longrightarrow> a = b"
  unfolding digit_char_def
  by (subst (asm) nth_eq_iff_index_eq) simp_all

lemma eq_from_div_mod:
  fixes x y :: nat
  shows "x div 10 = y div 10 \<Longrightarrow> x mod 10 = y mod 10 \<Longrightarrow> x = y"
  by (metis div_mult_mod_eq)

lemma two_digits_inj:
  assumes "n < 100" "m < 100" "zfill 2 (digits n) = zfill 2 (digits m)"
  shows "n = m"
proof -
  from assms have "digit_char (n div 10) = digit_char (m div 10)" "digit_char (n mod 10) = digit_char (m mod 10)"
    by (simp_all add: two_digits)
  moreover have "n div 10 < 10" "m div 10 < 10" "n mod 10 < 10" "m mod 10 < 10" using assms by simp_all
  ultimately have "n div 10 = m div 10" "n mod 10 = m mod 10"
    by (blast intro: digit_char_inj)+
  then show ?thesis by (rule eq_from_div_mod)
qed

lemma four_digits_inj:
  assumes "1000 \<le> n" "n \<le> 9999" "1000 \<le> m" "m \<le> 9999" "zfill 4 (digits n) = zfill 4 (digits m)"
  shows "n = m"
proof -
  from assms have e: "digit_char (n div 1000) = digit_char (m div 1000)"
      "digit_char (n div 100 mod 10) = digit_char (m div 100 mod 10)"
      "digit_char (n div 10 mod 10) = digit_char (m div 10 mod 10)"
      "digit_char (n mod 10) = digit_char (m mod 10)"
    by (simp_all add: four_digits)
  have b: "n div 1000 < 10" "m div 1000 < 10" using assms by simp_all
  have 1: "n div 1000 = m div 1000" using e(1) b by (rule_tac digit_char_inj) simp_all
  have 2: "n div 100 mod 10 = m div 100 mod 10" using e(2) by (rule_tac digit_char_inj) simp_all
  have 3: "n div 10 mod 10 = m div 10 mod 10" using e(3) by (rule_tac digit_char_inj) simp_all
  have 4: "n mod 10 = m mod 10" using e(4) by (rule_tac digit_char_inj) simp_all
  have "n div 100 div 10 = m div 100 div 10" using 1 by (simp add: div_mult2_eq [symmetric])
  then have h: "n div 100 = m div 100" using 2 by (rule eq_from_div_mod)
  have "n div 10 div 10 = m div 10 div 10" using h by (simp add: div_mult2_eq [symmetric])
  then have t: "n div 10 = m div 10" using 3 by (rule eq_from_div_mod)
  from t 4 show ?thesis by (rule eq_from_div_mod)
qed

lemma length_two: "n < 100 \<Longrightarrow> length (zfill 2 (digits n)) = 2"
  by (simp add: two_digits)

lemma length_four: "1000 \<le> n \<Longrightarrow> n \<le> 9999 \<Longrightarrow> length (zfill 4 (digits n)) = 4"
  by (simp add: four_digits)

lemma length_strftime: "valid_datetime dt \<Longrightarrow> length (strftime dt) = 15"
  by (simp add: valid_datetime_def strftime_def length_two length_four)

lemma strftime_inj:
  assumes v1: "valid_datetime d1" and v2: "valid_datetime d2" and eq: "strftime d1 = strftime d2"
  shows "to_seconds d1 = to_seconds d2"
proof -
  from v1 have b1: "1000 \<le> year d1" "year d1 \<le> 9999" "month d1 < 100" "day d1 < 100" "hour d1 < 100"
      "minute d1 < 100" "second d1 < 100"
    by (simp_all add: valid_datetime_def)
  from v2 have b2: "1000 \<le> year d2" "year d2 \<le> 9999" "month d2 < 100" "day d2 < 100" "hour d2 < 100"
      "minute d2 < 100" "second d2 < 100"
    by (simp_all add: valid_datetime_def)
  note l = length_four [OF b1(1,2)] length_four [OF b2(1,2)]
    length_two [OF b1(3)] length_two [OF b2(3)] length_two [OF b1(4)] length_two [OF b2(4)]
    length_two [OF b1(5)] length_two [OF b2(5)] length_two [OF b1(6)] length_two [OF b2(6)]
    length_two [OF b1(7)] length_two [OF b2(7)]
  from eq have parts:
      "zfill 4 (digits (year d1)) = zfill 4 (digits (year d2))"
      "zfill 2 (digits (month d1)) = zfill 2 (digits (month d2))"
      "zfill 2 (digits (day d1)) = zfill 2 (digits (day d2))"
      "zfill 2 (digits (hour d1)) = zfill 2 (digits (hour d2))"
      "zfill 2 (digits (minute d1)) = zfill 2 (digits (minute d2))"
      "zfill 2 (digits (second d1)) = zfill 2 (digits (second d2))"
    unfolding strftime_def using l by simp_all
  show ?thesis
    unfolding to_seconds_def
    using four_digits_inj [OF b1(1,2) b2(1,2) parts(1)]
      two_digits_inj [OF b1(3) b2(3) parts(2)] two_digits_inj [OF b1(4) b2(4) parts(3)]
      two_digits_inj [OF b1(5) b2(5) parts(4)] two_digits_inj [OF b1(6) b2(6) parts(5)]
      two_digits_inj [OF b1(7) b2(7) parts(6)]
    by simp
qed


lemma log_dir_stamp:
  assumes "fst (CliBenchmarkRun_init env br w) = Inr self"
  shows "log_dir self = path_join (getcwd env) [''logs'', benchmark_id br, strftime (now env)]"
    and "log_dir self =
           (let base = path_join (getcwd env) [''logs'', benchmark_id br]
            in if base = [] \<or> last base = CHR ''/'' then base else base @ ''/'') @ strftime (now env)"
proof -
  let ?ts = "strftime (now env)"
  have ne: "?ts \<noteq> []" by (rule strftime_nonempty)
  have ns: "CHR ''/'' \<notin> set ?ts" by (rule strftime_no_sep)
  from ne ns have hd: "hd ?ts \<noteq> CHR ''/''" by (metis hd_in_set)
  note ld = log_dir_of_init [OF assms]
  show "log_dir self = path_join (getcwd env) [''logs'', benchmark_id br, strftime (now env)]"
    by (simp add: ld path_join_def)
  show "log_dir self =
           (let base = path_join (getcwd env) [''logs'', benchmark_id br]
            in if base = [] \<or> last base = CHR ''/'' then base else base @ ''/'') @ strftime (now env)"
    using ne hd by (simp add: ld path_join_def [of _ "[?ts]"] join_step_relative Let_def)
qed

lemma same_length_disjoint:
  assumes "length a = length b" "a \<noteq> b"
  shows "P @ a \<noteq> P @ b" and "\<not> (prefix ((P @ a) @ ''/'') p \<and> prefix ((P @ b) @ ''/'') p)"
proof -
  show "P @ a \<noteq> P @ b" using assms by simp
  show "\<not> (prefix ((P @ a) @ ''/'') p \<and> prefix ((P @ b) @ ''/'') p)"
  proof
    assume "prefix ((P @ a) @ ''/'') p \<and> prefix ((P @ b) @ ''/'') p"
    then have "prefix ((P @ a) @ ''/'') ((P @ b) @ ''/'') \<or> prefix ((P @ b) @ ''/'') ((P @ a) @ ''/'')"
      using prefix_same_cases by blast
    then have "(P @ a) @ ''/'' = (P @ b) @ ''/''"
      using assms(1) by (auto simp: prefix_def)
    with assms(2) show False by simp
  qed
qed

lemma demo_later_strftime: "strftime (now demo_later) = ''20261104_072106''"
  by (simp add: demo_later_def strftime_def zfill_def digits.simps digit_char_def)

lemma demo_later_gbld: "get_benchmark_log_dir demo_later ''b'' demo_world = (Inr ''/w/logs/b'', demo_world)"
  by (simp add: get_benchmark_log_dir_def Let_def path_exists_def is_dir_def is_file_def)
     (simp add: demo_later_def demo_env_def demo_world_def demo_paths)

lemma demo_later_paths:
  "path_join ''/w/logs/b'' [''20261104_072106''] = ''/w/logs/b/20261104_072106''"
  "dirname ''/w/logs/b/20261104_072106'' = ''/w/logs/b''"
  by code_simp+

lemma demo_later_init:
  "fst (CliBenchmarkRun_init demo_later demo_run demo_world) =
     Inr \<lparr>benchmark_run = demo_run, log_dir = ''/w/logs/b/20261104_072106''\<rparr>"
proof -
  have "fst (mkdir ''/w/logs/b/20261104_072106''
              (demo_world\<lparr>dirs := insert ''/w/logs/b'' (dirs demo_world)\<rparr>)) = Inr ()"
    by (simp add: mkdir_def demo_later_paths path_exists_def)
       (auto simp add: is_dir_def is_file_def demo_world_def)
  then obtain w3 where m: "mkdir ''/w/logs/b/20261104_072106''
              (demo_world\<lparr>dirs := insert ''/w/logs/b'' (dirs demo_world)\<rparr>) = (Inr (), w3)"
    by (cases "mkdir ''/w/logs/b/20261104_072106''
              (demo_world\<lparr>dirs := insert ''/w/logs/b'' (dirs demo_world)\<rparr>)") simp
  show ?thesis
    by (simp add: CliBenchmarkRun_init_def demo_bid demo_later_gbld demo_later_strftime demo_later_paths
          demo_exists demo_mkdir1 m Let_def)
qed

subsection \<open>The process runner\<close>

lemma proc_events_Nil [simp]: "proc_events [] = []"
  by (simp add: proc_events_def)

lemma proc_events_Cons [simp]:
  "proc_events (e # es) = (if is_proc e then e # proc_events es else proc_events es)"
  by (simp add: proc_events_def)

lemma proc_events_append [simp]: "proc_events (xs @ ys) = proc_events xs @ proc_events ys"
  by (simp add: proc_events_def)

lemma proc_events_lines [simp]: "proc_events (map (\<lambda>l. SpinnerWriteBytes (f l)) ls) = []"
  by (induction ls) (simp_all add: proc_events_def)

lemma utf8_valid_append: "utf8_valid xs \<Longrightarrow> utf8_valid ys \<Longrightarrow> utf8_valid (xs @ ys)"
proof (induction xs rule: utf8_valid.induct)
  case 1
  then show ?case by simp
next
  case (2 c cs)
  from "2.prems" obtain k where k: "utf8_seq_len (c # cs) = Some k" and v: "utf8_valid (drop (k - 1) cs)"
    by (auto split: option.splits)
  note d = seq_len_SomeD [OF k]
  have "utf8_seq_len (c # take (k - 1) cs @ (drop (k - 1) cs @ ys)) = Some (lead_len c)"
    using d by (intro seq_len_prefix) simp_all
  then have sl: "utf8_seq_len (c # cs @ ys) = Some k"
    using d(1) by (simp flip: append_assoc)
  have "utf8_valid (drop (k - 1) cs @ ys)"
    using "2.IH" [OF k v "2.prems"(2)] .
  then show ?case using sl d(3) by simp
qed

lemma utf8_valid_concat: "\<forall>l\<in>set ls. utf8_valid l \<Longrightarrow> utf8_valid (concat ls)"
  by (induction ls) (simp_all add: utf8_valid_append)

lemma emit_simps [simp]:
  "files (emit e w) = files w"
  "dirs (emit e w) = dirs w"
  "launches (emit e w) = launches w"
  "trace (emit e w) = trace w @ [e]"
  by (simp_all add: emit_def)

lemma append_bytes_simps [simp]:
  "files (append_bytes p b w) q = (if q = p then Some (content w p @ b) else files w q)"
  "trace (append_bytes p b w) = trace w"
  "dirs (append_bytes p b w) = dirs w"
  "launches (append_bytes p b w) = launches w"
  by (simp_all add: append_bytes_def)

lemma content_emit [simp]: "content (emit e w) p = content w p"
  by (simp add: content_def)

lemma content_append_bytes [simp]:
  "content (append_bytes p b w) q = (if q = p then content w p @ b else content w q)"
  by (simp add: content_def)


lemma file_write_encodable:
  "encodable env s \<Longrightarrow> file_write env p s w = (Inr (), append_bytes p (encoded env s) w)"
  by (auto simp: file_write_def encodable_def encoded_def)

lemma file_write_unencodable:
  "\<not> encodable env s \<Longrightarrow> file_write env p s w = (Inl (UnicodeEncodeError s), w)"
  by (auto simp: file_write_def encodable_def)

lemma copy_lines_step_ok:
  "utf8_valid l \<Longrightarrow> encodable env l \<Longrightarrow>
   copy_lines env lp (l # ls) w =
     copy_lines env lp ls (append_bytes lp (encoded env l) (emit (SpinnerWriteBytes (strip_newline l)) w))"
  by (simp add: decode_def file_write_encodable)

lemma copy_lines_step_undecodable:
  "\<not> utf8_valid l \<Longrightarrow>
   copy_lines env lp (l # ls) w =
     (Inl (UnicodeDecodeError l), emit (SpinnerWriteBytes (strip_newline l)) w)"
  by (simp add: decode_def)

lemma copy_lines_step_unencodable:
  "utf8_valid l \<Longrightarrow> \<not> encodable env l \<Longrightarrow>
   copy_lines env lp (l # ls) w =
     (Inl (UnicodeEncodeError l), emit (SpinnerWriteBytes (strip_newline l)) w)"
  by (simp add: decode_def file_write_unencodable)

lemma copy_lines_ok:
  assumes "\<forall>l\<in>set ls. utf8_valid l \<and> encodable env l"
  shows "fst (copy_lines env lp ls w) = Inr () \<and>
         (\<forall>p. files (snd (copy_lines env lp ls w)) p =
                (if p = lp \<and> ls \<noteq> [] then Some (content w lp @ concat (map (encoded env) ls))
                 else files w p)) \<and>
         trace (snd (copy_lines env lp ls w)) = trace w @ map (\<lambda>l. SpinnerWriteBytes (strip_newline l)) ls \<and>
         dirs (snd (copy_lines env lp ls w)) = dirs w \<and>
         launches (snd (copy_lines env lp ls w)) = launches w"
  using assms
proof (induction ls arbitrary: w)
  case Nil
  then show ?case by simp
next
  case (Cons l ls)
  let ?w1 = "append_bytes lp (encoded env l) (emit (SpinnerWriteBytes (strip_newline l)) w)"
  have v: "\<forall>l\<in>set ls. utf8_valid l \<and> encodable env l" and vl: "utf8_valid l" and el: "encodable env l"
    using Cons.prems by simp_all
  note ih = Cons.IH [OF v, of ?w1]
  show ?case
    unfolding copy_lines_step_ok [OF vl el] using ih by simp
qed

lemma copy_lines_any:
  "dirs (snd (copy_lines env lp ls w)) = dirs w \<and>
   launches (snd (copy_lines env lp ls w)) = launches w \<and>
   proc_events (trace (snd (copy_lines env lp ls w))) = proc_events (trace w) \<and>
   (\<forall>p. p \<noteq> lp \<longrightarrow> files (snd (copy_lines env lp ls w)) p = files w p)"
proof (induction ls arbitrary: w)
  case Nil
  then show ?case by simp
next
  case (Cons l ls)
  let ?w1 = "append_bytes lp (encoded env l) (emit (SpinnerWriteBytes (strip_newline l)) w)"
  show ?case
  proof (cases "utf8_valid l")
    case False
    show ?thesis unfolding copy_lines_step_undecodable [OF False] by simp
  next
    case True
    show ?thesis
    proof (cases "encodable env l")
      case False
      show ?thesis unfolding copy_lines_step_unencodable [OF True False] by simp
    next
      case e: True
      show ?thesis unfolding copy_lines_step_ok [OF True e] using Cons.IH [of ?w1] by simp
    qed
  qed
qed

lemma copy_lines_fail:
  assumes "\<not> (\<forall>l\<in>set ls. utf8_valid l \<and> encodable env l)"
  shows "\<exists>l\<in>set ls. fst (copy_lines env lp ls w) = Inl (UnicodeDecodeError l) \<or>
                     fst (copy_lines env lp ls w) = Inl (UnicodeEncodeError l)"
  using assms
proof (induction ls arbitrary: w)
  case Nil
  then show ?case by simp
next
  case (Cons l ls)
  show ?case
  proof (cases "utf8_valid l")
    case False
    show ?thesis unfolding copy_lines_step_undecodable [OF False] by simp
  next
    case True
    show ?thesis
    proof (cases "encodable env l")
      case False
      show ?thesis unfolding copy_lines_step_unencodable [OF True False] by simp
    next
      case e: True
      with True Cons.prems have "\<not> (\<forall>l\<in>set ls. utf8_valid l \<and> encodable env l)" by simp
      from Cons.IH [OF this] show ?thesis
        unfolding copy_lines_step_ok [OF True e] by auto
    qed
  qed
qed

text \<open>The worlds \<open>_run_task\<close> goes through: after the launch, and with the log opened.\<close>

lemma run_task_spawn_failure:
  assumes "popen env (launches w) task = Inl e"
  shows "run_task env task lp w =
           (Inl e, emit (Popen task)
                     ((emit (SpinnerWrite (''$ '' @ shlex_join (task_args env task))) w)
                        \<lparr>launches := Suc (launches w)\<rparr>))"
  using assms by (simp add: run_task_def Let_def)

lemma run_task_not_opened:
  assumes p: "popen env (launches w) task = Inr (out, ending)" and a: "\<not> can_append w lp"
  shows "run_task env task lp w =
     (Inl (if is_dir w lp then IsADirectoryError lp
           else if is_file w (dirname lp) then NotADirectoryError lp
           else FileNotFoundError lp),
      emit (Popen task)
        ((emit (SpinnerWrite (''$ '' @ shlex_join (task_args env task))) w)
           \<lparr>launches := Suc (launches w)\<rparr>))"
  using p a
  by (auto simp: run_task_def Let_def open_append_def can_append_def is_dir_def is_file_def)

lemma run_task_not_written:
  assumes p: "popen env (launches w) task = Inr (out, ending)" and a: "can_append w lp"
    and e: "\<not> encodable env (''$ '' @ shlex_join (task_args env task) @ [newline])"
  shows "fst (run_task env task lp w) =
           Inl (UnicodeEncodeError (''$ '' @ shlex_join (task_args env task) @ [newline])) \<and>
         dirs (snd (run_task env task lp w)) = dirs w \<and>
         launches (snd (run_task env task lp w)) = Suc (launches w) \<and>
         proc_events (trace (snd (run_task env task lp w))) = proc_events (trace w) @ [Popen task] \<and>
         (\<forall>p. p \<noteq> lp \<longrightarrow> files (snd (run_task env task lp w)) p = files w p)"
proof -
  define cmd where "cmd = shlex_join (task_args env task)"
  have e': "\<not> encodable env ([CHR ''$'', CHR '' ''] @ cmd @ [newline])"
    using e by (simp add: cmd_def)
  show ?thesis
    using p a unfolding cmd_def [symmetric]
    by (simp add: run_task_def Let_def open_append_def can_append_def is_dir_def is_file_def
          file_write_unencodable [OF e', simplified] cmd_def [symmetric])
qed

lemma run_task_launched:
  assumes p: "popen env (launches w) task = Inr (out, ending)" and a: "can_append w lp"
    and e: "encodable env (''$ '' @ shlex_join (task_args env task) @ [newline])"
  shows "run_task env task lp w =
     (case copy_lines env lp (iter_lines out)
             (append_bytes lp (encoded env (''$ '' @ shlex_join (task_args env task) @ [newline]))
                ((emit (Popen task)
                    ((emit (SpinnerWrite (''$ '' @ shlex_join (task_args env task))) w)
                       \<lparr>launches := Suc (launches w)\<rparr>))
                 \<lparr>files := (files w)(lp \<mapsto> content w lp)\<rparr>)) of
        (Inl e, w5) \<Rightarrow> (Inl e, w5)
      | (Inr _, w5) \<Rightarrow>
          (case ending of
             Inl e \<Rightarrow> (Inl e, w5)
           | Inr rc \<Rightarrow> (Inr rc, emit (Returncode task rc) w5)))"
proof -
  define cmd where "cmd = shlex_join (task_args env task)"
  have e': "encodable env ([CHR ''$'', CHR '' ''] @ cmd @ [newline])"
    using e by (simp add: cmd_def)
  show ?thesis
    using p a unfolding cmd_def [symmetric]
    by (simp add: run_task_def Let_def open_append_def can_append_def is_dir_def is_file_def
          file_write_encodable [OF e', simplified] cmd_def [symmetric] content_def)
qed


lemma run_task_any:
  "dirs (snd (run_task env task lp w)) = dirs w \<and>
   launches (snd (run_task env task lp w)) = Suc (launches w) \<and>
   proc_events (trace (snd (run_task env task lp w))) =
     proc_events (trace w) @ Popen task #
       (case fst (run_task env task lp w) of Inr rc \<Rightarrow> [Returncode task rc] | Inl _ \<Rightarrow> []) \<and>
   (\<forall>p. p \<noteq> lp \<longrightarrow> files (snd (run_task env task lp w)) p = files w p)"
proof (cases "popen env (launches w) task")
  case (Inl e)
  show ?thesis
    unfolding run_task_spawn_failure [OF Inl] by simp
next
  case (Inr pr)
  obtain out ending where pr: "pr = (out, ending)" by (cases pr)
  with Inr have p: "popen env (launches w) task = Inr (out, ending)" by simp
  show ?thesis
  proof (cases "can_append w lp")
    case False
    show ?thesis
      unfolding run_task_not_opened [OF p False] by simp
  next
    case True
    define cmd where "cmd = shlex_join (task_args env task)"
    define line0 where "line0 = ''$ '' @ cmd @ [newline]"
    show ?thesis
    proof (cases "encodable env line0")
      case False
      from run_task_not_written [OF p True False [unfolded line0_def cmd_def]]
      show ?thesis by simp
    next
      case e0: True
      define w4 where "w4 = append_bytes lp (encoded env line0)
                  ((emit (Popen task) ((emit (SpinnerWrite (''$ '' @ cmd)) w)\<lparr>launches := Suc (launches w)\<rparr>))
                   \<lparr>files := (files w)(lp \<mapsto> content w lp)\<rparr>)"
      have w4: "\<And>p. p \<noteq> lp \<Longrightarrow> files w4 p = files w p"
          "proc_events (trace w4) = proc_events (trace w) @ [Popen task]"
          "dirs w4 = dirs w" "launches w4 = Suc (launches w)"
        by (simp_all add: w4_def)
      note ca = copy_lines_any [of env lp "iter_lines out" w4]
      obtain r w5 where c: "copy_lines env lp (iter_lines out) w4 = (r, w5)"
        by (cases "copy_lines env lp (iter_lines out) w4")
      from ca c have w5: "dirs w5 = dirs w4" "launches w5 = launches w4"
          "proc_events (trace w5) = proc_events (trace w4)"
          "\<And>p. p \<noteq> lp \<Longrightarrow> files w5 p = files w4 p"
        by simp_all
      have w5': "dirs w5 = dirs w" "launches w5 = Suc (launches w)"
          "proc_events (trace w5) = proc_events (trace w) @ [Popen task]"
          "\<And>p. p \<noteq> lp \<Longrightarrow> files w5 p = files w p"
        using w5 w4 by simp_all
      have rt0: "run_task env task lp w =
          (case copy_lines env lp (iter_lines out) w4 of
             (Inl e, w5) \<Rightarrow> (Inl e, w5)
           | (Inr _, w5) \<Rightarrow>
               (case ending of
                  Inl e \<Rightarrow> (Inl e, w5)
                | Inr rc \<Rightarrow> (Inr rc, emit (Returncode task rc) w5)))"
        unfolding w4_def cmd_def line0_def
        by (rule run_task_launched [OF p True e0 [unfolded line0_def cmd_def]])
      show ?thesis
        unfolding rt0 c
        by (cases r; cases ending) (simp_all add: w5')
    qed
  qed
qed

lemma run_task_write_failure:
  assumes p: "popen env (launches w) task = Inr (out, ending)"
    and a: "can_append w lp"
    and v: "\<not> utf8_valid out \<or> \<not> list_all (encodable env) (written env task out)"
  shows "\<exists>x. fst (run_task env task lp w) = Inl (UnicodeDecodeError x) \<or>
             fst (run_task env task lp w) = Inl (UnicodeEncodeError x)"
proof -
  define cmd where "cmd = shlex_join (task_args env task)"
  define line0 where "line0 = ''$ '' @ cmd @ [newline]"
  have wr: "written env task out = line0 # iter_lines out"
    by (simp add: written_def line0_def cmd_def)
  show ?thesis
  proof (cases "encodable env line0")
    case False
    from run_task_not_written [OF p a False [unfolded line0_def cmd_def]]
    show ?thesis by blast
  next
    case e0: True
    define w4 where "w4 = append_bytes lp (encoded env line0)
                ((emit (Popen task) ((emit (SpinnerWrite (''$ '' @ cmd)) w)\<lparr>launches := Suc (launches w)\<rparr>))
                 \<lparr>files := (files w)(lp \<mapsto> content w lp)\<rparr>)"
    have "\<not> (\<forall>l\<in>set (iter_lines out). utf8_valid l \<and> encodable env l)"
    proof
      assume all: "\<forall>l\<in>set (iter_lines out). utf8_valid l \<and> encodable env l"
      then have "utf8_valid (concat (iter_lines out))" by (intro utf8_valid_concat) blast
      then have "utf8_valid out" by (simp add: concat_iter_lines)
      moreover have "list_all (encodable env) (written env task out)"
        using all e0 by (simp add: wr list_all_iff)
      ultimately show False using v by blast
    qed
    from copy_lines_fail [OF this, of lp w4]
    obtain l where l: "fst (copy_lines env lp (iter_lines out) w4) = Inl (UnicodeDecodeError l) \<or>
                       fst (copy_lines env lp (iter_lines out) w4) = Inl (UnicodeEncodeError l)"
      by blast
    have rt0: "run_task env task lp w =
        (case copy_lines env lp (iter_lines out) w4 of
           (Inl e, w5) \<Rightarrow> (Inl e, w5)
         | (Inr _, w5) \<Rightarrow>
             (case ending of
                Inl e \<Rightarrow> (Inl e, w5)
              | Inr rc \<Rightarrow> (Inr rc, emit (Returncode task rc) w5)))"
      unfolding w4_def cmd_def line0_def
      by (rule run_task_launched [OF p a e0 [unfolded line0_def cmd_def]])
    show ?thesis
      unfolding rt0 using l
      by (cases "copy_lines env lp (iter_lines out) w4") auto
  qed
qed

lemma run_task_interrupted:
  assumes p: "popen env (launches w) task = Inr (out, Inl e)"
    and a: "can_append w lp"
    and v: "utf8_valid out"
    and en: "list_all (encodable env) (written env task out)"
  shows "fst (run_task env task lp w) = Inl e"
proof -
  define cmd where "cmd = shlex_join (task_args env task)"
  define line0 where "line0 = ''$ '' @ cmd @ [newline]"
  define w4 where "w4 = append_bytes lp (encoded env line0)
                ((emit (Popen task) ((emit (SpinnerWrite (''$ '' @ cmd)) w)\<lparr>launches := Suc (launches w)\<rparr>))
                 \<lparr>files := (files w)(lp \<mapsto> content w lp)\<rparr>)"
  have wr: "written env task out = line0 # iter_lines out"
    by (simp add: written_def line0_def cmd_def)
  from en have e0: "encodable env line0" and el: "\<forall>l\<in>set (iter_lines out). encodable env l"
    by (simp_all add: wr list_all_iff)
  have lines: "\<forall>l\<in>set (iter_lines out). utf8_valid l \<and> encodable env l"
    using utf8_valid_iter_lines [OF v] el by blast
  have c: "fst (copy_lines env lp (iter_lines out) w4) = Inr ()"
    using copy_lines_ok [OF lines, of lp w4] by simp
  have rt0: "run_task env task lp w =
      (case copy_lines env lp (iter_lines out) w4 of
         (Inl e, w5) \<Rightarrow> (Inl e, w5)
       | (Inr _, w5) \<Rightarrow>
           (case (Inl e :: exn + int) of
              Inl e \<Rightarrow> (Inl e, w5)
            | Inr rc \<Rightarrow> (Inr rc, emit (Returncode task rc) w5)))"
    unfolding w4_def cmd_def line0_def
    by (rule run_task_launched [OF p a e0 [unfolded line0_def cmd_def]])
  show ?thesis
    unfolding rt0 using c by (cases "copy_lines env lp (iter_lines out) w4") simp
qed

subsection \<open>Raising for a task, and the loops\<close>







lemma run_tasks_append:
  "run_tasks env self ph (xs @ ys) w =
     (case run_tasks env self ph xs w of
        (Inl e, w') \<Rightarrow> (Inl e, w')
      | (Inr u, w') \<Rightarrow> run_tasks env self ph ys w')"
proof (induction xs arbitrary: w)
  case Nil
  then show ?case by simp
next
  case (Cons x xs)
  obtain r w2 where b: "run_phase_task env self ph x w = (r, w2)"
    by (cases "run_phase_task env self ph x w")
  show ?case by (cases r) (simp_all add: b Cons.IH)
qed

lemma run_presets_append:
  "run_presets env self (xs @ ys) stats w =
     (case run_presets env self xs stats w of
        (Inl e, w') \<Rightarrow> (Inl e, w')
      | (Inr st, w') \<Rightarrow> run_presets env self ys st w')"
proof (induction xs arbitrary: stats w)
  case Nil
  then show ?case by simp
next
  case (Cons x xs)
  obtain name tasks where x: "x = (name, tasks)" by (cases x)
  obtain r w2 where b: "run_preset env self name tasks stats w = (r, w2)"
    by (cases "run_preset env self name tasks stats w")
  show ?case unfolding x by (cases r) (simp_all add: b Cons.IH)
qed

lemma run_phase_task_fail:
  assumes "run_task env task (get_log_path self (phase_id ph))
             (emit (SpinnerText (status_text (benchmark_id (benchmark_run self)) ph
                                   (shlex_join (task_args env task)))) w) = (res, w2)"
    and "res \<noteq> Inr 0"
  shows "run_phase_task env self ph task w =
           (Inl (case res of
                   Inl e \<Rightarrow>
                     if is_Exception e then
                       BenchmarkTaskError
                         (''Task '' @ task_str env task @ '' did not start because of '' @ exc_str env e)
                     else e
                 | Inr rc \<Rightarrow> BenchmarkTaskFailed
                     (''Task '' @ task_str env task @ '' failed with return code '' @ str_int rc)),
            (case res of
               Inl e \<Rightarrow>
                 if is_Exception e then
                   emit (EchoErr (err_message (benchmark_id (benchmark_run self)) ph
                                    (shlex_join (task_args env task)))) w2
                 else w2
             | Inr rc \<Rightarrow>
                 emit (EchoErr (err_message (benchmark_id (benchmark_run self)) ph
                                  (shlex_join (task_args env task)))) w2))"
  using assms
  by (cases res) (simp_all add: run_phase_task_def Let_def run_task_or_err_def print_message_def)

lemma start_aborts:
  assumes r: "reaches env self w0 ph (task # post) w1"
    and t: "run_phase_task env self ph task w1 = (Inl X, W)"
  shows "start env self w0 = (Inl X, W)"
proof -
  define ws0 where "ws0 = emit (SpinnerWrite (setup_banner (benchmark_id (benchmark_run self)))) w0"
  have phase: "\<And>pre w. run_tasks env self ph pre w = (Inr (), w1) \<Longrightarrow>
      run_tasks env self ph (pre @ task # post) w = (Inl X, W)"
    by (simp add: run_tasks_append t)
  have st: "start env self w0 =
      (case run_tasks env self Setup (setup_tasks (benchmark_run self)) ws0 of
         (Inl e, w2) \<Rightarrow> (Inl e, w2)
       | (Inr _, w2) \<Rightarrow> run_presets env self (run_phases (benchmark_run self)) Map.empty w2)"
    by (simp add: start_def Let_def ws0_def)
  show ?thesis
  proof (cases ph)
    case Setup
    with r obtain pre where p: "setup_tasks (benchmark_run self) = pre @ task # post"
        "run_tasks env self Setup pre ws0 = (Inr (), w1)"
      by (auto simp: reaches_def Let_def ws0_def)
    show ?thesis unfolding st p(1) using phase [of pre ws0] p(2) Setup by simp
  next
    case (Run name)
    with r obtain ws before pre rest stats wb where
        p: "run_phases (benchmark_run self) = before @ (name, pre @ task # post) # rest"
          "run_tasks env self Setup (setup_tasks (benchmark_run self)) ws0 = (Inr (), ws)"
          "run_presets env self before Map.empty ws = (Inr stats, wb)"
          "run_tasks env self (Run name) pre
             (emit (SpinnerWrite (preset_banner (benchmark_id (benchmark_run self)) name)) wb) = (Inr (), w1)"
      by (auto simp: reaches_def Let_def ws0_def)
    have "run_preset env self name (pre @ task # post) stats wb = (Inl X, W)"
      using phase [OF p(4) [folded Run]] Run by (simp add: run_preset_def Let_def)
    then show ?thesis
      unfolding st p(1) p(2) by (simp add: run_presets_append p(3))
  qed
qed



lemma demo_failing_reaches:
  "reaches demo_env demo_failing demo_ready Setup [[''false'']]
     (snd (run_tasks demo_env demo_failing Setup [[''echo'', ''hi'']]
             (emit (SpinnerWrite (setup_banner ''b'')) demo_ready)))"
proof -
  have "fst (run_tasks demo_env demo_failing Setup [[''echo'', ''hi'']]
             (emit (SpinnerWrite (setup_banner ''b'')) demo_ready)) = Inr ()"
    by code_simp
  then have "run_tasks demo_env demo_failing Setup [[''echo'', ''hi'']]
             (emit (SpinnerWrite (setup_banner ''b'')) demo_ready) =
        (Inr (), snd (run_tasks demo_env demo_failing Setup [[''echo'', ''hi'']]
             (emit (SpinnerWrite (setup_banner ''b'')) demo_ready)))"
    by (simp add: prod_eq_iff)
  moreover have "setup_tasks (benchmark_run demo_failing) = [[''echo'', ''hi'']] @ [[''false'']]"
      "benchmark_id (benchmark_run demo_failing) = ''b''"
    by (simp_all add: demo_failing_def demo_run_def)
  ultimately show ?thesis
    unfolding reaches_def Let_def by (simp del: run_tasks.simps)
qed

subsection \<open>Runs in which every task succeeds\<close>


lemma phase_log_append:
  "phase_log env n (xs @ ys) = phase_log env n xs @ phase_log env (n + length xs) ys"
  by (induction xs arbitrary: n) simp_all




















subsection \<open>The concrete locale\<close>




section \<open>The claims\<close>





text \<open>
  C6.  When \<open>Popen\<close> raises, \<open>_run_task\<close> ends with that very exception (the cause
  of the spawn failure); no file is touched, so the log gets neither the echoed command
  line nor any output line, and the only things that happened are the echo of the command
  on the spinner and the call of \<open>Popen\<close>.
\<close>

theorem spawn_failure_outcome:
  assumes "popen env (launches w) task = Inl e"
  shows "fst (run_task env task log_path w) = Inl e \<and>
         files (snd (run_task env task log_path w)) = files w \<and>
         dirs (snd (run_task env task log_path w)) = dirs w \<and>
         trace (snd (run_task env task log_path w)) =
           trace w @ [SpinnerWrite (''$ '' @ shlex_join (task_args env task)), Popen task]"
  unfolding run_task_spawn_failure [OF assms] by (simp add: emit_def)

text \<open>The theorem at a task whose executable does not exist.\<close>

theorem spawn_failure_outcome_witness:
  "popen demo_env (launches demo_ready) [''nosuch''] = Inl (OSError ''No such file or directory'') \<and>
   fst (run_task demo_env [''nosuch''] ''/w/logs/b/20261104_072105/setup.log'' demo_ready) =
     Inl (OSError ''No such file or directory'') \<and>
   files (snd (run_task demo_env [''nosuch''] ''/w/logs/b/20261104_072105/setup.log'' demo_ready)) =
     files demo_ready"
proof -
  have h: "popen demo_env (launches demo_ready) [''nosuch''] = Inl (OSError ''No such file or directory'')"
    by (simp add: demo_env_def)
  from spawn_failure_outcome [OF h] show ?thesis using h by blast
qed

text \<open>
  C7.  For a run constructed by \<open>__init__\<close> and every phase identifier (\<open>setup\<close> or
  \<open>run_\<close> followed by a preset name), \<open>_get_log_path\<close> is the invocation directory,
  a slash, the identifier and \<open>.log\<close>; it depends on the invocation directory and the
  identifier only (it reads no state, so two calls agree).
\<close>

theorem get_log_path_pure:
  assumes "fst (CliBenchmarkRun_init env br w) = Inr self"
  shows "get_log_path self (phase_id ph) = log_dir self @ ''/'' @ phase_id ph @ ''.log'' \<and>
         (\<forall>other :: ('t, 's) CliBenchmarkRun.
            log_dir other = log_dir self \<longrightarrow>
            get_log_path other (phase_id ph) = get_log_path self (phase_id ph))"
proof -
  from log_dir_shape [OF assms] have "log_dir self \<noteq> []" "last (log_dir self) \<noteq> CHR ''/''"
    by simp_all
  then have "get_log_path self (phase_id ph) = log_dir self @ ''/'' @ phase_id ph @ ''.log''"
    by (rule get_log_path_phase)
  then show ?thesis by (simp add: get_log_path_def)
qed

text \<open>The theorem at the concrete run and the phase of preset \<open>p\<close>.\<close>

theorem get_log_path_pure_witness:
  "fst (CliBenchmarkRun_init demo_env demo_run demo_world) = Inr demo_cli \<and>
   get_log_path demo_cli (phase_id (Run ''p'')) = ''/w/logs/b/20261104_072105/run_p.log''"
proof -
  have h: "fst (CliBenchmarkRun_init demo_env demo_run demo_world) = Inr demo_cli"
    by (simp add: demo_init)
  have "get_log_path demo_cli (phase_id (Run ''p'')) = log_dir demo_cli @ ''/'' @ phase_id (Run ''p'') @ ''.log''"
    by (rule get_log_path_pure [OF h, of "Run ''p''", THEN conjunct1])
  then show ?thesis using h by (simp add: demo_cli_def)
qed

text \<open>
  C9.  As stated, the claim has every exception of the step re-raised as the "did not
  start" error.  The handler is \<open>except Exception\<close>, so the promise holds for the
  exceptions that derive from \<open>Exception\<close>: whichever of them \<open>_run_task\<close> ends
  with, \<open>_run_task_or_err\<close> prints the error message and raises
  \<open>BenchmarkTaskError\<close> with the message "Task ... did not start because of ...";
  any other exception (\<open>KeyboardInterrupt\<close>, \<open>SystemExit\<close>, ...) leaves
  \<open>_run_task_or_err\<close> as it is, with nothing printed.  The exceptions raised after
  the child was launched when the log file cannot be opened for appending, a line of the
  output does not decode, or a text cannot be written to the log in the locale's encoding,
  are of the first kind: \<open>_run_task\<close> raises an \<open>Exception\<close> although \<open>Popen\<close>
  was called and returned.
\<close>

theorem exception_becomes_did_not_start:
  "(\<forall>e w1. run_task env task log_path w = (Inl e, w1) \<longrightarrow>
        run_task_or_err env task log_path msg w =
          (if is_Exception e then
             (Inl (BenchmarkTaskError
                     (''Task '' @ task_str env task @ '' did not start because of '' @ exc_str env e)),
              emit (EchoErr msg) w1)
           else (Inl e, w1))) \<and>
   (\<forall>out ending. popen env (launches w) task = Inr (out, ending) \<longrightarrow>
        \<not> can_append w log_path \<or> \<not> utf8_valid out \<or>
        \<not> list_all (encodable env) (written env task out) \<longrightarrow>
        (\<exists>e. is_Exception e \<and> fst (run_task env task log_path w) = Inl e \<and>
             Popen task \<in> set (trace (snd (run_task env task log_path w)))))"
proof (intro conjI allI impI)
  fix e w1 assume "run_task env task log_path w = (Inl e, w1)"
  then show "run_task_or_err env task log_path msg w =
          (if is_Exception e then
             (Inl (BenchmarkTaskError
                     (''Task '' @ task_str env task @ '' did not start because of '' @ exc_str env e)),
              emit (EchoErr msg) w1)
           else (Inl e, w1))"
    by (simp add: run_task_or_err_def print_message_def)
next
  fix out ending
  assume p: "popen env (launches w) task = Inr (out, ending)"
    and f: "\<not> can_append w log_path \<or> \<not> utf8_valid out \<or>
            \<not> list_all (encodable env) (written env task out)"
  have tr: "Popen task \<in> set (trace (snd (run_task env task log_path w)))"
  proof -
    have "Popen task \<in> set (proc_events (trace (snd (run_task env task log_path w))))"
      using run_task_any [of env task log_path w] by simp
    then show ?thesis by (simp add: proc_events_def)
  qed
  show "\<exists>e. is_Exception e \<and> fst (run_task env task log_path w) = Inl e \<and>
             Popen task \<in> set (trace (snd (run_task env task log_path w)))"
  proof (cases "can_append w log_path")
    case False
    show ?thesis using tr unfolding run_task_not_opened [OF p False] by simp
  next
    case True
    with f have "\<not> utf8_valid out \<or> \<not> list_all (encodable env) (written env task out)" by simp
    from run_task_write_failure [OF p True this]
    obtain x where "fst (run_task env task log_path w) = Inl (UnicodeDecodeError x) \<or>
                    fst (run_task env task log_path w) = Inl (UnicodeEncodeError x)"
      by blast
    then show ?thesis
    proof
      assume "fst (run_task env task log_path w) = Inl (UnicodeDecodeError x)"
      with tr show ?thesis by (intro exI [of _ "UnicodeDecodeError x"]) simp
    next
      assume "fst (run_task env task log_path w) = Inl (UnicodeEncodeError x)"
      with tr show ?thesis by (intro exI [of _ "UnicodeEncodeError x"]) simp
    qed
  qed
qed

text \<open>
  The theorem at a task that launches and prints a character that the log, in a locale
  whose encoding is ASCII, cannot take.
\<close>

theorem exception_becomes_did_not_start_witness:
  "fst (run_task demo_ascii [''accent''] ''/w/logs/b/20261104_072105/setup.log'' demo_ready) =
     Inl (UnicodeEncodeError [CHR 0xC3, CHR 0xA9, newline]) \<and>
   is_Exception (UnicodeEncodeError [CHR 0xC3, CHR 0xA9, newline]) \<and>
   fst (run_task_or_err demo_ascii [''accent''] ''/w/logs/b/20261104_072105/setup.log'' ''failed'' demo_ready) =
     Inl (BenchmarkTaskError ''Task accent did not start because of error'')"
proof -
  define w1 where "w1 = snd (run_task demo_ascii [''accent''] ''/w/logs/b/20261104_072105/setup.log'' demo_ready)"
  have "fst (run_task demo_ascii [''accent''] ''/w/logs/b/20261104_072105/setup.log'' demo_ready) =
     Inl (UnicodeEncodeError [CHR 0xC3, CHR 0xA9, newline])"
    by code_simp
  then have h: "run_task demo_ascii [''accent''] ''/w/logs/b/20261104_072105/setup.log'' demo_ready =
     (Inl (UnicodeEncodeError [CHR 0xC3, CHR 0xA9, newline]), w1)"
    by (simp add: prod_eq_iff w1_def)
  have s: "task_str demo_ascii [''accent''] = ''accent''"
      "exc_str demo_ascii (UnicodeEncodeError [CHR 0xC3, CHR 0xA9, newline]) = ''error''"
    by code_simp+
  from exception_becomes_did_not_start [of demo_ascii "[''accent'']" "''/w/logs/b/20261104_072105/setup.log''"
      demo_ready "''failed''"] h
  show ?thesis by (simp add: s)
qed

text \<open>
  A task that is interrupted by Ctrl-C while the program waits for it:
  \<open>_run_task\<close> ends with \<open>KeyboardInterrupt\<close>, and so does \<open>_run_task_or_err\<close>,
  without printing the error message and without raising the "did not start" error.
\<close>

theorem exception_becomes_did_not_start_counterexample:
  "popen demo_env (launches demo_ready) [''sleep''] = Inr ([], Inl KeyboardInterrupt) \<and>
   fst (run_task demo_env [''sleep''] ''/w/logs/b/20261104_072105/setup.log'' demo_ready) =
     Inl KeyboardInterrupt \<and>
   fst (run_task_or_err demo_env [''sleep''] ''/w/logs/b/20261104_072105/setup.log'' ''failed'' demo_ready) =
     Inl KeyboardInterrupt \<and>
   EchoErr ''failed'' \<notin>
     set (trace (snd (run_task_or_err demo_env [''sleep''] ''/w/logs/b/20261104_072105/setup.log''
                        ''failed'' demo_ready)))"
  by code_simp


text \<open>
  C8.  Two runs of the same benchmark, constructed in the same working directory at
  timestamps (with four-digit years) that differ in some field down to the second, get the
  invocation directories \<open><cwd>/logs/<id>/<stamp>\<close> of their own timestamps; the two
  directories differ and no path lies below both.
\<close>

theorem invocation_dirs_disjoint:
  assumes i1: "fst (CliBenchmarkRun_init env1 br1 w1) = Inr self1"
    and i2: "fst (CliBenchmarkRun_init env2 br2 w2) = Inr self2"
    and cwd: "getcwd env1 = getcwd env2"
    and bid: "benchmark_id br1 = benchmark_id br2"
    and v1: "valid_datetime (now env1)"
    and v2: "valid_datetime (now env2)"
    and ne: "to_seconds (now env1) \<noteq> to_seconds (now env2)"
  shows "log_dir self1 = path_join (getcwd env1) [''logs'', benchmark_id br1, strftime (now env1)] \<and>
         log_dir self2 = path_join (getcwd env2) [''logs'', benchmark_id br2, strftime (now env2)] \<and>
         log_dir self1 \<noteq> log_dir self2 \<and>
         (\<forall>p. \<not> (prefix (log_dir self1 @ ''/'') p \<and> prefix (log_dir self2 @ ''/'') p))"
proof -
  define P where "P = (let base = path_join (getcwd env1) [''logs'', benchmark_id br1]
            in if base = [] \<or> last base = CHR ''/'' then base else base @ ''/'')"
  have d1: "log_dir self1 = P @ strftime (now env1)"
    unfolding P_def by (rule log_dir_stamp(2) [OF i1])
  have d2: "log_dir self2 = P @ strftime (now env2)"
    unfolding P_def cwd bid by (rule log_dir_stamp(2) [OF i2])
  have len: "length (strftime (now env1)) = length (strftime (now env2))"
    by (simp add: length_strftime v1 v2)
  have diff: "strftime (now env1) \<noteq> strftime (now env2)"
    using strftime_inj [OF v1 v2] ne by blast
  have A: "log_dir self1 \<noteq> log_dir self2"
    unfolding d1 d2 by (rule same_length_disjoint(1) [OF len diff])
  have B: "\<forall>p. \<not> (prefix (log_dir self1 @ ''/'') p \<and> prefix (log_dir self2 @ ''/'') p)"
    unfolding d1 d2 using same_length_disjoint(2) [OF len diff] by blast
  show ?thesis
    using log_dir_stamp(1) [OF i1] log_dir_stamp(1) [OF i2] A B by blast
qed

text \<open>The theorem at two constructions one second apart.\<close>

theorem invocation_dirs_disjoint_witness:
  "fst (CliBenchmarkRun_init demo_env demo_run demo_world) = Inr demo_cli \<and>
   fst (CliBenchmarkRun_init demo_later demo_run demo_world) =
     Inr \<lparr>benchmark_run = demo_run, log_dir = ''/w/logs/b/20261104_072106''\<rparr> \<and>
   getcwd demo_env = getcwd demo_later \<and>
   valid_datetime (now demo_env) \<and> valid_datetime (now demo_later) \<and>
   to_seconds (now demo_env) \<noteq> to_seconds (now demo_later) \<and>
   log_dir demo_cli \<noteq> ''/w/logs/b/20261104_072106''"
proof -
  have i1: "fst (CliBenchmarkRun_init demo_env demo_run demo_world) = Inr demo_cli"
    by (simp add: demo_init)
  note i2 = demo_later_init
  have c: "getcwd demo_env = getcwd demo_later" by (simp add: demo_later_def)
  have v1: "valid_datetime (now demo_env)" by (simp add: valid_datetime_def demo_env_def)
  have v2: "valid_datetime (now demo_later)" by (simp add: valid_datetime_def demo_later_def)
  have ne: "to_seconds (now demo_env) \<noteq> to_seconds (now demo_later)"
    by (simp add: to_seconds_def demo_env_def demo_later_def)
  from invocation_dirs_disjoint [OF i1 i2 c refl v1 v2 ne]
  have "log_dir demo_cli \<noteq> log_dir \<lparr>benchmark_run = demo_run, log_dir = ''/w/logs/b/20261104_072106''\<rparr>"
    by blast
  then show ?thesis using i1 i2 c v1 v2 ne by simp
qed




text \<open>
  C1.  Take any task that \<open>start\<close> gets to run (in the setup or in a preset's phase,
  everything before it having completed).  If \<open>_run_task\<close> raises for it (an
  \<open>Exception\<close>, as a spawn failure is), \<open>start\<close> raises \<open>BenchmarkTaskError\<close>
  with a message naming the task and the cause; if it returns a non-zero code,
  \<open>start\<close> raises \<open>BenchmarkTaskFailed\<close> with a message naming the task and the
  code.  In both cases the phase's error message goes to the error channel as the very
  last thing that happens: the run ends in the world the task left, with that message
  appended, and the failing task's launch is the last launch.  (An exception that is not
  an \<open>Exception\<close>, such as \<open>KeyboardInterrupt\<close>, leaves \<open>start\<close> as it is and
  without the message; the run ends in the world the task left then, too.)
\<close>

theorem task_failure_stops_run:
  assumes "reaches env self w0 ph (task # post) w1"
    and "run_task env task (get_log_path self (phase_id ph))
           (emit (SpinnerText (status_text (benchmark_id (benchmark_run self)) ph
                                 (shlex_join (task_args env task)))) w1) = (res, w2)"
    and "res \<noteq> Inr 0"
  shows "fst (start env self w0) =
           Inl (case res of
                  Inl e \<Rightarrow>
                    if is_Exception e then
                      BenchmarkTaskError
                        (''Task '' @ task_str env task @ '' did not start because of '' @ exc_str env e)
                    else e
                | Inr rc \<Rightarrow> BenchmarkTaskFailed
                    (''Task '' @ task_str env task @ '' failed with return code '' @ str_int rc)) \<and>
         trace (snd (start env self w0)) =
           trace w2 @
           (case res of
              Inl e \<Rightarrow>
                if is_Exception e then
                  [EchoErr (err_message (benchmark_id (benchmark_run self)) ph
                              (shlex_join (task_args env task)))]
                else []
            | Inr rc \<Rightarrow>
                [EchoErr (err_message (benchmark_id (benchmark_run self)) ph
                            (shlex_join (task_args env task)))]) \<and>
         launches (snd (start env self w0)) = Suc (launches w1) \<and>
         dirs (snd (start env self w0)) = dirs w2 \<and>
         files (snd (start env self w0)) = files w2"
proof -
  have l: "launches w2 = Suc (launches w1)"
    using run_task_any [of env task "get_log_path self (phase_id ph)"
        "emit (SpinnerText (status_text (benchmark_id (benchmark_run self)) ph
                                 (shlex_join (task_args env task)))) w1"] assms(2)
    by simp
  note st = start_aborts [OF assms(1) run_phase_task_fail [OF assms(2,3)]]
  show ?thesis
    unfolding st using l by (cases res) simp_all
qed

text \<open>The theorem at the second setup task of the failing concrete run.\<close>

theorem task_failure_stops_run_witness:
  "reaches demo_env demo_failing demo_ready Setup [[''false'']]
     (snd (run_tasks demo_env demo_failing Setup [[''echo'', ''hi'']]
             (emit (SpinnerWrite (setup_banner ''b'')) demo_ready))) \<and>
   fst (start demo_env demo_failing demo_ready) =
     Inl (BenchmarkTaskFailed ''Task false failed with return code 1'') \<and>
   launches (snd (start demo_env demo_failing demo_ready)) = 2"
proof -
  define w1 where "w1 = snd (run_tasks demo_env demo_failing Setup [[''echo'', ''hi'']]
             (emit (SpinnerWrite (setup_banner ''b'')) demo_ready))"
  define wt where "wt = emit (SpinnerText (status_text (benchmark_id (benchmark_run demo_failing)) Setup
                                 (shlex_join (task_args demo_env [''false''])))) w1"
  define lp where "lp = get_log_path demo_failing (phase_id Setup)"
  have r: "reaches demo_env demo_failing demo_ready Setup [[''false'']] w1"
    unfolding w1_def by (rule demo_failing_reaches)
  have res: "fst (run_task demo_env [''false''] lp wt) = Inr 1"
    unfolding lp_def wt_def w1_def by code_simp
  have t: "run_task demo_env [''false''] lp wt = (Inr 1, snd (run_task demo_env [''false''] lp wt))"
    using res by (simp add: prod_eq_iff)
  have l: "launches w1 = 1"
    unfolding w1_def by code_simp
  have s: "task_str demo_env [''false''] = ''false''" "str_int 1 = ''1''"
    by code_simp+
  from task_failure_stops_run [OF r t [unfolded lp_def wt_def]]
  show ?thesis using r [unfolded w1_def] by (simp add: s l)
qed


text \<open>
  C2.  With setup tasks \<open>[A, B]\<close> and one preset with tasks \<open>[C]\<close>: when \<open>A\<close> has
  exited with 0 and \<open>B\<close> fails (\<open>_run_task\<close> raises for it or returns a non-zero code),
  \<open>start\<close> raises the error built from \<open>B\<close> (or the exception itself when it is
  not an \<open>Exception\<close>), and the processes launched are \<open>A\<close> and \<open>B\<close> and nothing
  else: \<open>C\<close> is never launched and \<open>get_stats\<close> is never called.
\<close>

theorem setup_failure_skips_presets:
  assumes s: "setup_tasks (benchmark_run self) = [A, B]"
    and p: "run_phases (benchmark_run self) = [(name, [C])]"
    and a: "run_task env A (get_log_path self (phase_id Setup))
              (emit (SpinnerText (status_text (benchmark_id (benchmark_run self)) Setup
                                    (shlex_join (task_args env A))))
                 (emit (SpinnerWrite (setup_banner (benchmark_id (benchmark_run self)))) w0)) = (Inr 0, w1)"
    and b: "run_task env B (get_log_path self (phase_id Setup))
              (emit (SpinnerText (status_text (benchmark_id (benchmark_run self)) Setup
                                    (shlex_join (task_args env B)))) w1) = (res, w2)"
    and f: "res \<noteq> Inr 0"
  shows "fst (start env self w0) =
           Inl (case res of
                  Inl e \<Rightarrow>
                    if is_Exception e then
                      BenchmarkTaskError
                        (''Task '' @ task_str env B @ '' did not start because of '' @ exc_str env e)
                    else e
                | Inr rc \<Rightarrow> BenchmarkTaskFailed
                    (''Task '' @ task_str env B @ '' failed with return code '' @ str_int rc)) \<and>
         proc_events (trace (snd (start env self w0))) =
           proc_events (trace w0) @ [Popen A, Returncode A 0, Popen B] @
           (case res of Inl e \<Rightarrow> [] | Inr rc \<Rightarrow> [Returncode B rc])"
proof -
  define ws0 where "ws0 = emit (SpinnerWrite (setup_banner (benchmark_id (benchmark_run self)))) w0"
  define wa where "wa = emit (SpinnerText (status_text (benchmark_id (benchmark_run self)) Setup
                                    (shlex_join (task_args env A)))) ws0"
  define wb where "wb = emit (SpinnerText (status_text (benchmark_id (benchmark_run self)) Setup
                                    (shlex_join (task_args env B)))) w1"
  define lp where "lp = get_log_path self (phase_id Setup)"
  have a': "run_task env A lp wa = (Inr 0, w1)" using a by (simp add: lp_def wa_def ws0_def)
  have b': "run_task env B lp wb = (res, w2)" using b by (simp add: lp_def wb_def)
  have pa: "run_phase_task env self Setup A ws0 = (Inr (), w1)"
    using a' by (simp add: run_phase_task_def Let_def run_task_or_err_def lp_def wa_def)
  have "run_tasks env self Setup [A] ws0 = (Inr (), w1)"
    by (simp add: pa)
  then have r: "reaches env self w0 Setup (B # []) w1"
    unfolding reaches_def Let_def ws0_def using s by (simp del: run_tasks.simps)
  note st = start_aborts [OF r run_phase_task_fail [OF b f]]
  have t0: "proc_events (trace wa) = proc_events (trace w0)"
    by (simp add: wa_def ws0_def)
  have t1: "proc_events (trace w1) = proc_events (trace w0) @ [Popen A, Returncode A 0]"
    using run_task_any [of env A lp wa] a' by (simp add: t0)
  have t2: "proc_events (trace w2) =
      proc_events (trace w1) @ Popen B # (case res of Inl e \<Rightarrow> [] | Inr rc \<Rightarrow> [Returncode B rc])"
    using run_task_any [of env B lp wb] b' by (simp add: wb_def)
  show ?thesis
    unfolding st by (cases res) (simp_all add: t2 t1)
qed


text \<open>The theorem at the failing concrete run, where \<open>C\<close> is the same command as \<open>A\<close>.\<close>

theorem setup_failure_skips_presets_witness:
  "setup_tasks (benchmark_run demo_failing) = [[''echo'', ''hi''], [''false'']] \<and>
   run_phases (benchmark_run demo_failing) = [(''p'', [[''echo'', ''hi'']])] \<and>
   fst (start demo_env demo_failing demo_ready) =
     Inl (BenchmarkTaskFailed ''Task false failed with return code 1'') \<and>
   proc_events (trace (snd (start demo_env demo_failing demo_ready))) =
     [Popen [''echo'', ''hi''], Returncode [''echo'', ''hi''] 0, Popen [''false''], Returncode [''false''] 1]"
proof -
  define wa where "wa = emit (SpinnerText (status_text (benchmark_id (benchmark_run demo_failing)) Setup
                                    (shlex_join (task_args demo_env [''echo'', ''hi'']))))
                 (emit (SpinnerWrite (setup_banner (benchmark_id (benchmark_run demo_failing)))) demo_ready)"
  define lp where "lp = get_log_path demo_failing (phase_id Setup)"
  define w1 where "w1 = snd (run_task demo_env [''echo'', ''hi''] lp wa)"
  define wb where "wb = emit (SpinnerText (status_text (benchmark_id (benchmark_run demo_failing)) Setup
                                    (shlex_join (task_args demo_env [''false''])))) w1"
  have s: "setup_tasks (benchmark_run demo_failing) = [[''echo'', ''hi''], [''false'']]"
    and p: "run_phases (benchmark_run demo_failing) = [(''p'', [[''echo'', ''hi'']])]"
    by (simp_all add: demo_failing_def demo_run_def)
  have "fst (run_task demo_env [''echo'', ''hi''] lp wa) = Inr 0"
    unfolding lp_def wa_def by code_simp
  then have a: "run_task demo_env [''echo'', ''hi''] lp wa = (Inr 0, w1)"
    by (simp add: prod_eq_iff w1_def)
  have "fst (run_task demo_env [''false''] lp wb) = Inr 1"
    unfolding lp_def wb_def w1_def wa_def by code_simp
  then have b: "run_task demo_env [''false''] lp wb = (Inr 1, snd (run_task demo_env [''false''] lp wb))"
    by (simp add: prod_eq_iff)
  have e: "task_str demo_env [''false''] = ''false''" "str_int 1 = ''1''" "trace demo_ready = []"
    by code_simp+
  from setup_failure_skips_presets [OF s p a [unfolded lp_def wa_def] b [unfolded lp_def wb_def]]
  show ?thesis using s p by (simp add: e)
qed






end
